theory Spec2Isabelle
  imports Complex_Main "HOL-Library.Log_Nat"
begin

section \<open>JavaScript strings\<close>

text \<open>
  A JavaScript string is modelled as a \<open>string\<close>: the list of its code units, restricted
  to code units below 256. In that range the white space and line terminators that
  \<^verbatim>\<open>trim\<close>, the regular expression class \<^verbatim>\<open>\s\<close> and the numeric conversion skip are
  TAB, LF, VT, FF, CR, SPACE and NO-BREAK SPACE.
\<close>

definition isWhiteSpace :: "char \<Rightarrow> bool" where
  "isWhiteSpace c \<longleftrightarrow>
     c \<in> set [CHR 0x09, CHR 0x0A, CHR 0x0B, CHR 0x0C, CHR 0x0D, CHR 0x20, CHR 0xA0]"

definition isDigit :: "char \<Rightarrow> bool" where
  "isDigit c \<longleftrightarrow> c \<in> set ''0123456789''"

text \<open>\<^verbatim>\<open>s.trim()\<close>\<close>

definition trim :: "string \<Rightarrow> string" where
  "trim s = rev (dropWhile isWhiteSpace (rev (dropWhile isWhiteSpace s)))"

text \<open>\<^verbatim>\<open>s.startsWith(p)\<close> and \<^verbatim>\<open>s.includes(p)\<close>\<close>

definition startsWith :: "string \<Rightarrow> string \<Rightarrow> bool" where
  "startsWith s p \<longleftrightarrow> take (length p) s = p"

fun str_includes :: "string \<Rightarrow> string \<Rightarrow> bool" where
  "str_includes [] p = (p = [])"
| "str_includes (x # xs) p = (startsWith (x # xs) p \<or> str_includes xs p)"

text \<open>\<^verbatim>\<open>s.replace(p, r)\<close> with a string pattern: only the first occurrence is replaced.\<close>

fun replace_first :: "string \<Rightarrow> string \<Rightarrow> string \<Rightarrow> string" where
  "replace_first [] p r = (if p = [] then r else [])"
| "replace_first (x # xs) p r =
     (if startsWith (x # xs) p then r @ drop (length p) (x # xs)
      else x # replace_first xs p r)"

text \<open>\<^verbatim>\<open>s.split(c)\<close> for a one-character separator: never the empty list.\<close>

fun cons_first :: "char \<Rightarrow> string list \<Rightarrow> string list" where
  "cons_first x [] = [[x]]"
| "cons_first x (p # ps) = (x # p) # ps"

fun split_char :: "char \<Rightarrow> string \<Rightarrow> string list" where
  "split_char c [] = [[]]"
| "split_char c (x # xs) =
     (if x = c then [] # split_char c xs else cons_first x (split_char c xs))"

text \<open>\<^verbatim>\<open>s.split(/\r?\n/)\<close>: a separator is LF, or CR immediately followed by LF.\<close>

fun split_lines :: "string \<Rightarrow> string list" where
  "split_lines [] = [[]]"
| "split_lines [x] = (if x = CHR 0x0A then [[], []] else [[x]])"
| "split_lines (x # y # ys) =
     (if x = CHR 0x0A then [] # split_lines (y # ys)
      else if x = CHR 0x0D \<and> y = CHR 0x0A then [] # split_lines ys
      else cons_first x (split_lines (y # ys)))"

text \<open>
  \<^verbatim>\<open>s.replace(/^"|"$/g, '')\<close>: a double quote at the very start is removed, and a double
  quote at the very end of what is left after it.
\<close>

definition strip_quotes :: "string \<Rightarrow> string" where
  "strip_quotes s =
     (let s1 = (case s of [] \<Rightarrow> [] | x # xs \<Rightarrow> if x = CHR 0x22 then xs else x # xs)
      in if s1 \<noteq> [] \<and> last s1 = CHR 0x22 then butlast s1 else s1)"

text \<open>
  \<^verbatim>\<open>/^-?[\d\.]+,[\d]+$/.test(s)\<close>: an optional minus sign, one or more digits or dots, a
  comma, one or more digits, and nothing else.
\<close>

definition decimal_comma :: "string \<Rightarrow> bool" where
  "decimal_comma s =
     (let body = (case s of [] \<Rightarrow> [] | x # xs \<Rightarrow> if x = CHR ''-'' then xs else x # xs);
          a = takeWhile (\<lambda>c. isDigit c \<or> c = CHR ''.'') body
      in a \<noteq> [] \<and>
         (case drop (length a) body of
            [] \<Rightarrow> False
          | x # b \<Rightarrow> x = CHR '','' \<and> b \<noteq> [] \<and> list_all isDigit b))"

section \<open>JavaScript numbers\<close>

text \<open>
  A Number is an IEEE 754 binary64 value: a finite value (kept as the rational it
  denotes), an infinity, or NaN. The two zeros are identified. Every arithmetic operation
  computes the exact result and rounds it to the nearest representable value, ties to the
  even significand, overflowing to an infinity.
\<close>

datatype number = Fin rat | PInf | NInf | NaN

definition round_half_even :: "rat \<Rightarrow> int" where
  "round_half_even r =
     (let f = \<lfloor>r\<rfloor>; d = r - of_int f
      in if d < 1 / 2 then f else if 1 / 2 < d then f + 1 else if even f then f else f + 1)"

text \<open>The exponent \<open>e\<close> with \<open>2 powi e \<le> a < 2 powi (e + 1)\<close>, for \<open>a > 0\<close>.\<close>

definition floor_log2 :: "rat \<Rightarrow> int" where
  "floor_log2 a =
     (let (p, q) = quotient_of a; d = bitlen p - bitlen q
      in if 2 powi d \<le> a then d else d - 1)"

definition round_double :: "rat \<Rightarrow> number" where
  "round_double r =
     (if r = 0 then Fin 0
      else let a = \<bar>r\<bar>;
               e = max (floor_log2 a) (- 1022);
               u = 2 powi (e - 52);
               m = of_int (round_half_even (a / u)) * u
           in if 2 powi 1024 \<le> m then (if r < 0 then NInf else PInf)
              else Fin (if r < 0 then - m else m))"

fun isNaN :: "number \<Rightarrow> bool" where
  "isNaN NaN = True"
| "isNaN _ = False"

fun isFinite :: "number \<Rightarrow> bool" where
  "isFinite (Fin _) = True"
| "isFinite _ = False"

fun fneg :: "number \<Rightarrow> number" where
  "fneg (Fin a) = Fin (- a)"
| "fneg PInf = NInf"
| "fneg NInf = PInf"
| "fneg NaN = NaN"

text \<open>\<^verbatim>\<open>x + y\<close> on Numbers\<close>

fun fadd :: "number \<Rightarrow> number \<Rightarrow> number" where
  "fadd (Fin a) (Fin b) = round_double (a + b)"
| "fadd NaN _ = NaN"
| "fadd _ NaN = NaN"
| "fadd PInf NInf = NaN"
| "fadd NInf PInf = NaN"
| "fadd PInf _ = PInf"
| "fadd NInf _ = NInf"
| "fadd _ PInf = PInf"
| "fadd _ NInf = NInf"

text \<open>\<^verbatim>\<open>x - y\<close>\<close>

definition fsub :: "number \<Rightarrow> number \<Rightarrow> number" where
  "fsub x y = fadd x (fneg y)"

text \<open>The sign of a Number that is not NaN, as \<open>-1\<close>, \<open>0\<close> or \<open>1\<close>.\<close>

fun fsgn :: "number \<Rightarrow> int" where
  "fsgn (Fin a) = (if a < 0 then - 1 else if a = 0 then 0 else 1)"
| "fsgn PInf = 1"
| "fsgn NInf = - 1"
| "fsgn NaN = 0"

text \<open>\<^verbatim>\<open>x * y\<close>\<close>

fun fmul :: "number \<Rightarrow> number \<Rightarrow> number" where
  "fmul (Fin a) (Fin b) = round_double (a * b)"
| "fmul x y =
     (if isNaN x \<or> isNaN y \<or> fsgn x * fsgn y = 0 then NaN
      else if fsgn x * fsgn y < 0 then NInf else PInf)"

text \<open>
  \<^verbatim>\<open>x / y\<close>. A zero divisor is taken as the positive zero; every division of the program
  is guarded by a test that the divisor is positive.
\<close>

fun fdiv :: "number \<Rightarrow> number \<Rightarrow> number" where
  "fdiv NaN _ = NaN"
| "fdiv _ NaN = NaN"
| "fdiv (Fin a) (Fin b) =
     (if b = 0 then (if a = 0 then NaN else if a < 0 then NInf else PInf)
      else round_double (a / b))"
| "fdiv (Fin a) _ = Fin 0"
| "fdiv x (Fin b) = (if (fsgn x < 0) = (b < 0) then PInf else NInf)"
| "fdiv _ _ = NaN"

text \<open>\<^verbatim>\<open>x < y\<close> and \<^verbatim>\<open>x > y\<close>: false whenever an operand is NaN.\<close>

fun flt :: "number \<Rightarrow> number \<Rightarrow> bool" where
  "flt NaN _ = False"
| "flt _ NaN = False"
| "flt (Fin a) (Fin b) = (a < b)"
| "flt NInf NInf = False"
| "flt NInf _ = True"
| "flt _ NInf = False"
| "flt PInf _ = False"
| "flt _ PInf = True"

definition fgt :: "number \<Rightarrow> number \<Rightarrow> bool" where
  "fgt x y = flt y x"

text \<open>Truthiness of a Number: false for zero and NaN.\<close>

fun truthy_number :: "number \<Rightarrow> bool" where
  "truthy_number (Fin a) = (a \<noteq> 0)"
| "truthy_number NaN = False"
| "truthy_number _ = True"

subsection \<open>String to Number\<close>

text \<open>
  \<^verbatim>\<open>Number(s)\<close> for a string: white space is trimmed; the empty string is 0; the rest must
  be a decimal literal (optional sign, \<^verbatim>\<open>Infinity\<close> or digits with an optional fraction
  and exponent) or an unsigned binary, octal or hexadecimal integer literal; anything
  else is NaN. The mathematical value is rounded once.
\<close>

definition digit_val :: "char \<Rightarrow> int" where
  "digit_val c =
     (if isDigit c then of_char c - 48
      else if c \<in> set ''abcdef'' then of_char c - 87
      else of_char c - 55)"

definition radix_val :: "int \<Rightarrow> string \<Rightarrow> int" where
  "radix_val b s = foldl (\<lambda>n c. b * n + digit_val c) 0 s"

definition isHexDigit :: "char \<Rightarrow> bool" where
  "isHexDigit c \<longleftrightarrow> c \<in> set ''0123456789abcdefABCDEF''"

definition isOctalDigit :: "char \<Rightarrow> bool" where
  "isOctalDigit c \<longleftrightarrow> c \<in> set ''01234567''"

definition isBinaryDigit :: "char \<Rightarrow> bool" where
  "isBinaryDigit c \<longleftrightarrow> c \<in> set ''01''"

definition nondecimal :: "string \<Rightarrow> int option" where
  "nondecimal s =
     (case s of
        z # x # ds \<Rightarrow>
          if z = CHR ''0'' \<and> ds \<noteq> [] then
            (if (x = CHR ''x'' \<or> x = CHR ''X'') \<and> list_all isHexDigit ds
               then Some (radix_val 16 ds)
             else if (x = CHR ''o'' \<or> x = CHR ''O'') \<and> list_all isOctalDigit ds
               then Some (radix_val 8 ds)
             else if (x = CHR ''b'' \<or> x = CHR ''B'') \<and> list_all isBinaryDigit ds
               then Some (radix_val 2 ds)
             else None)
          else None
      | _ \<Rightarrow> None)"

definition exponent_part :: "string \<Rightarrow> int option" where
  "exponent_part s =
     (case s of
        [] \<Rightarrow> Some 0
      | x # t \<Rightarrow>
          if x = CHR ''e'' \<or> x = CHR ''E'' then
            (let neg = (t \<noteq> [] \<and> hd t = CHR ''-'');
                 ds = (if t \<noteq> [] \<and> (hd t = CHR ''+'' \<or> hd t = CHR ''-'') then tl t else t)
             in if ds \<noteq> [] \<and> list_all isDigit ds
                then Some (if neg then - radix_val 10 ds else radix_val 10 ds)
                else None)
          else None)"

definition unsigned_decimal :: "string \<Rightarrow> rat option" where
  "unsigned_decimal s =
     (let ip = takeWhile isDigit s;
          r1 = dropWhile isDigit s;
          dot = (r1 \<noteq> [] \<and> hd r1 = CHR ''.'');
          fp = (if dot then takeWhile isDigit (tl r1) else []);
          r2 = (if dot then dropWhile isDigit (tl r1) else r1)
      in if ip = [] \<and> fp = [] then None
         else case exponent_part r2 of
                None \<Rightarrow> None
              | Some e \<Rightarrow>
                  Some ((of_int (radix_val 10 ip) + of_int (radix_val 10 fp) / 10 ^ length fp)
                        * 10 powi e))"

definition Number_of_string :: "string \<Rightarrow> number" where
  "Number_of_string s0 =
     (let s = trim s0
      in if s = [] then Fin 0
         else case nondecimal s of
                Some n \<Rightarrow> round_double (of_int n)
              | None \<Rightarrow>
                  (let neg = (hd s = CHR ''-'');
                       t = (if hd s = CHR ''+'' \<or> hd s = CHR ''-'' then tl s else s)
                   in if t = ''Infinity'' then (if neg then NInf else PInf)
                      else case unsigned_decimal t of
                             None \<Rightarrow> NaN
                           | Some v \<Rightarrow> round_double (if neg then - v else v)))"

section \<open>CSV ingestion: \<^verbatim>\<open>parseCSV\<close> (src/App.tsx)\<close>

text \<open>
  A cell of a row is a Number or a string (\<^verbatim>\<open>DataRow\<close> holds \<^verbatim>\<open>any\<close>; \<^verbatim>\<open>cleanAndParse\<close>
  produces only these two). A row object is a finite map from property names to cells; a
  missing property reads as \<^verbatim>\<open>undefined\<close>, here \<open>None\<close>. Property names are ordinary
  ones: the name \<^verbatim>\<open>__proto__\<close>, which JavaScript objects treat specially, is outside
  the model.
\<close>

datatype cell = Num number | Str string

type_synonym DataRow = "string \<rightharpoonup> cell"

datatype coltype = TNumber | TString

record DashboardData =
  headers :: "string list"
  rows :: "DataRow list"
  types :: "string \<rightharpoonup> coltype"

text \<open>\<^verbatim>\<open>cleanAndParse\<close>, lines 28-48\<close>

definition cleanAndParse :: "string \<Rightarrow> cell" where
  "cleanAndParse val =
     (if trim val = [] then Str []
      else
        let cleaned0 = strip_quotes (trim val);
            cleaned =
              (if str_includes cleaned0 ''R$'' \<or> str_includes cleaned0 ''%''
                  \<or> decimal_comma cleaned0
               then
                 let c1 = filter (\<lambda>c. \<not> isWhiteSpace c)
                            (replace_first (replace_first cleaned0 ''R$'' []) ''%'' [])
                 in if str_includes c1 '','' \<and> str_includes c1 ''.''
                    then replace_first (filter (\<lambda>c. c \<noteq> CHR ''.'') c1) '','' ''.''
                    else if str_includes c1 '','' then replace_first c1 '','' ''.''
                    else c1
               else cleaned0);
            num = Number_of_string cleaned
        in if \<not> isNaN num \<and> cleaned \<noteq> [] then Num num else Str cleaned)"

text \<open>
  \<^verbatim>\<open>line.split(/,(?=(?:(?:[^"]*"){2})*[^"]*$)/)\<close>: a comma separates two fields when
  the number of double quotes after it, up to the end of the line, is even.
\<close>

fun split_fields :: "string \<Rightarrow> string list" where
  "split_fields [] = [[]]"
| "split_fields (x # xs) =
     (if x = CHR '','' \<and> even (length (filter (\<lambda>c. c = CHR 0x22) xs))
      then [] # split_fields xs
      else cons_first x (split_fields xs))"

text \<open>
  The body of \<^verbatim>\<open>lines.slice(1).map\<close>, lines 50-57: the properties are written in header
  order, \<^verbatim>\<open>values[index] || ''\<close> being the empty string beyond the last field.
\<close>

definition make_row :: "string list \<Rightarrow> string list \<Rightarrow> DataRow" where
  "make_row hs vals =
     foldl (\<lambda>row (header, index).
              row(header \<mapsto> cleanAndParse (if index < length vals then vals ! index else [])))
       Map.empty (zip hs [0 ..< length hs])"

text \<open>Lines 59-63: the type of one column.\<close>

definition is_number :: "cell option \<Rightarrow> bool" where
  "is_number v = (case v of Some (Num _) \<Rightarrow> True | _ \<Rightarrow> False)"

definition infer_type :: "DataRow list \<Rightarrow> string \<Rightarrow> coltype" where
  "infer_type rs header =
     (let first = find (\<lambda>r. r header \<noteq> None \<and> r header \<noteq> Some (Str []) \<and> is_number (r header)) rs;
          firstVal = (case first of None \<Rightarrow> None | Some r \<Rightarrow> r header)
      in if is_number firstVal then TNumber else TString)"

definition parseCSV :: "string \<Rightarrow> DashboardData option" where
  "parseCSV csvText =
     (let lines = filter (\<lambda>line. trim line \<noteq> []) (split_lines csvText)
      in if length lines = 0 then None
         else
           let hs = map (\<lambda>h. strip_quotes (trim h)) (split_char CHR '','' (hd lines));
               rs = map (\<lambda>line. make_row hs (map trim (split_fields line))) (tl lines);
               ts = foldl (\<lambda>t header. t(header \<mapsto> infer_type rs header)) Map.empty hs
           in Some \<lparr>headers = hs, rows = rs, types = ts\<rparr>)"

text \<open>
  The header fields as line 26 computes them: the comma-separated fields of the first
  non-blank line, each trimmed and stripped of one layer of quotes.
\<close>

definition header_fields :: "string \<Rightarrow> string list" where
  "header_fields csvText =
     map (\<lambda>h. strip_quotes (trim h))
       (split_char CHR '','' (hd (filter (\<lambda>line. trim line \<noteq> []) (split_lines csvText))))"

section \<open>Number to string\<close>

text \<open>
  \<^verbatim>\<open>String(x)\<close> for a Number: the shortest decimal digit string \<open>s\<close> (of \<open>k\<close> digits) and
  the exponent \<open>n\<close> such that \<open>s * 10 powi (n - k)\<close> converts back to \<open>x\<close>, the closest
  such value when there are several, laid out in positional or exponent notation.
\<close>

function dec_digits :: "int \<Rightarrow> string" where
  "dec_digits n =
     (if n < 10 then [char_of (48 + n)]
      else dec_digits (n div 10) @ [char_of (48 + n mod 10)])"
  by pat_completeness auto
termination
  by (relation "measure nat") auto

declare dec_digits.simps [simp del]

text \<open>The exponent \<open>e\<close> with \<open>10 powi e \<le> a < 10 powi (e + 1)\<close>, for \<open>a > 0\<close>.\<close>

definition floor_log10 :: "rat \<Rightarrow> int" where
  "floor_log10 a =
     (if 1 \<le> a then int (length (dec_digits \<lfloor>a\<rfloor>)) - 1
      else - int (length (dec_digits (\<lceil>1 / a\<rceil> - 1))))"

text \<open>
  The candidates with \<open>k\<close> digits for the positive value \<open>r\<close>, as pairs of the digit
  value and the exponent \<open>n\<close>, closest first.
\<close>

definition digit_candidates :: "rat \<Rightarrow> nat \<Rightarrow> (int \<times> int) list" where
  "digit_candidates r k =
     (let n0 = floor_log10 r + 1;
          q = r / 10 powi (n0 - int k);
          lo = \<lfloor>q\<rfloor>;
          hi = lo + 1;
          norm = (\<lambda>s. if s = 10 ^ k then (10 ^ (k - 1), n0 + 1) else (s, n0));
          ordered = (if q - of_int lo < of_int hi - q then [lo, hi]
                     else if of_int hi - q < q - of_int lo then [hi, lo]
                     else if even lo then [lo, hi] else [hi, lo])
      in map norm
           (filter (\<lambda>s. 10 ^ (k - 1) \<le> s \<and> round_double (of_int s * 10 powi (n0 - int k)) = Fin r)
              ordered))"

definition shortest_digits :: "rat \<Rightarrow> string \<times> int" where
  "shortest_digits r =
     (case concat (map (digit_candidates r) [1 ..< 18]) of
        [] \<Rightarrow> ([], 0)
      | (s, n) # _ \<Rightarrow> (dec_digits s, n))"

definition layout_digits :: "string \<Rightarrow> int \<Rightarrow> string" where
  "layout_digits ds n =
     (let k = int (length ds)
      in if k \<le> n \<and> n \<le> 21 then ds @ replicate (nat (n - k)) CHR ''0''
         else if 0 < n \<and> n \<le> 21 then take (nat n) ds @ ''.'' @ drop (nat n) ds
         else if - 6 < n \<and> n \<le> 0 then ''0.'' @ replicate (nat (- n)) CHR ''0'' @ ds
         else (if k = 1 then ds else hd ds # ''.'' @ tl ds)
              @ ''e'' @ (if 0 \<le> n - 1 then ''+'' else ''-'') @ dec_digits \<bar>n - 1\<bar>)"

fun Number_toString :: "number \<Rightarrow> string" where
  "Number_toString NaN = ''NaN''"
| "Number_toString PInf = ''Infinity''"
| "Number_toString NInf = ''-Infinity''"
| "Number_toString (Fin r) =
     (if r = 0 then ''0''
      else (if r < 0 then ''-'' else [])
           @ (case shortest_digits \<bar>r\<bar> of (ds, n) \<Rightarrow> layout_digits ds n))"

text \<open>\<^verbatim>\<open>String(v)\<close>, \<^verbatim>\<open>Number(v)\<close> and the truthiness of a property value.\<close>

definition String_of :: "cell option \<Rightarrow> string" where
  "String_of v =
     (case v of None \<Rightarrow> ''undefined'' | Some (Num x) \<Rightarrow> Number_toString x | Some (Str s) \<Rightarrow> s)"

definition Number_of :: "cell option \<Rightarrow> number" where
  "Number_of v =
     (case v of None \<Rightarrow> NaN | Some (Num x) \<Rightarrow> x | Some (Str s) \<Rightarrow> Number_of_string s)"

definition truthy :: "cell option \<Rightarrow> bool" where
  "truthy v =
     (case v of None \<Rightarrow> False | Some (Num x) \<Rightarrow> truthy_number x | Some (Str s) \<Rightarrow> s \<noteq> [])"

text \<open>\<^verbatim>\<open>s.toLowerCase()\<close> on code units below 256\<close>

definition lower_char :: "char \<Rightarrow> char" where
  "lower_char c =
     (let n = (of_char c :: nat)
      in if (65 \<le> n \<and> n \<le> 90) \<or> (192 \<le> n \<and> n \<le> 222 \<and> n \<noteq> 215) then char_of (n + 32)
         else c)"

definition toLowerCase :: "string \<Rightarrow> string" where
  "toLowerCase s = map lower_char s"

section \<open>Dates\<close>

text \<open>
  A \<^verbatim>\<open>Date\<close> object holds a time value: an integral number of milliseconds since the
  epoch, or NaN (an invalid date). What the run-time environment decides is a parameter:
  the instant that \<^verbatim>\<open>new Date()\<close> returns while a view is computed, the offset of local
  time from UTC (taken as fixed), and \<^verbatim>\<open>Date.parse\<close>, whose accepted formats are left
  to the implementation (\<open>None\<close> is NaN).
\<close>

datatype jsdate = Invalid | Time int

record env =
  now_ms :: int
  tz_offset :: int
  Date_parse :: "string \<Rightarrow> int option"

definition msPerDay :: int where
  "msPerDay = 86400000"

text \<open>The day number of the first of a month (\<open>1 \<le> m \<le> 12\<close>) and its inverse.\<close>

definition days_from_civil :: "int \<Rightarrow> int \<Rightarrow> int \<Rightarrow> int" where
  "days_from_civil y m d =
     (let y1 = (if m \<le> 2 then y - 1 else y);
          era = y1 div 400;
          yoe = y1 - era * 400;
          doy = (153 * (if 2 < m then m - 3 else m + 9) + 2) div 5 + d - 1;
          doe = yoe * 365 + yoe div 4 - yoe div 100 + doy
      in era * 146097 + doe - 719468)"

definition civil_from_days :: "int \<Rightarrow> int \<times> int \<times> int" where
  "civil_from_days z =
     (let z1 = z + 719468;
          era = z1 div 146097;
          doe = z1 - era * 146097;
          yoe = (doe - doe div 1460 + doe div 36524 - doe div 146096) div 365;
          doy = doe - (365 * yoe + yoe div 4 - yoe div 100);
          mp = (5 * doy + 2) div 153;
          d = doy - (153 * mp + 2) div 5 + 1;
          m = (if mp < 10 then mp + 3 else mp - 9)
      in (if m \<le> 2 then yoe + era * 400 + 1 else yoe + era * 400, m, d))"

text \<open>\<^verbatim>\<open>TimeClip\<close>: a time value beyond 8.64e15 ms is NaN.\<close>

definition TimeClip :: "int \<Rightarrow> jsdate" where
  "TimeClip t = (if 8640000000000000 < \<bar>t\<bar> then Invalid else Time t)"

text \<open>
  \<^verbatim>\<open>MakeDay(year, month, date)\<close> on integral arguments, the month counted from 0. The
  range accepted for the year and the month is the implementation's; V8's is used.
\<close>

definition MakeDay :: "int \<Rightarrow> int \<Rightarrow> int \<Rightarrow> int option" where
  "MakeDay y m dt =
     (if - 1000000 \<le> y \<and> y \<le> 1000000 \<and> - 10000000 \<le> m \<and> m \<le> 10000000
      then Some (days_from_civil (y + m div 12) (m mod 12 + 1) 1 + dt - 1)
      else None)"

text \<open>Truncation towards zero (\<^verbatim>\<open>ToIntegerOrInfinity\<close> on a finite value).\<close>

definition truncate :: "rat \<Rightarrow> int" where
  "truncate r = (if 0 \<le> r then \<lfloor>r\<rfloor> else \<lceil>r\<rceil>)"

text \<open>
  \<^verbatim>\<open>new Date(year, monthIndex, day)\<close>: an invalid date as soon as an argument is not
  finite; a year from 0 to 99 is taken in the 1900s; the fields are read in local time.
\<close>

fun Date_ymd :: "env \<Rightarrow> number \<Rightarrow> number \<Rightarrow> number \<Rightarrow> jsdate" where
  "Date_ymd e (Fin y) (Fin m) (Fin d) =
     (let yi = truncate y;
          yr = (if 0 \<le> yi \<and> yi \<le> 99 then 1900 + yi else yi)
      in case MakeDay yr (truncate m) (truncate d) of
           None \<Rightarrow> Invalid
         | Some day \<Rightarrow> TimeClip (day * msPerDay - tz_offset e))"
| "Date_ymd e _ _ _ = Invalid"

text \<open>\<^verbatim>\<open>new Date(s)\<close> for a string and \<^verbatim>\<open>new Date()\<close>\<close>

definition Date_of_string :: "env \<Rightarrow> string \<Rightarrow> jsdate" where
  "Date_of_string e s = (case Date_parse e s of None \<Rightarrow> Invalid | Some t \<Rightarrow> TimeClip t)"

definition Date_now :: "env \<Rightarrow> jsdate" where
  "Date_now e = Time (now_ms e)"

text \<open>\<^verbatim>\<open>d.setHours(23, 59, 59, 999)\<close>: the last millisecond of the local day of \<open>d\<close>.\<close>

fun setHours_end :: "env \<Rightarrow> jsdate \<Rightarrow> jsdate" where
  "setHours_end e Invalid = Invalid"
| "setHours_end e (Time t) =
     TimeClip (((t + tz_offset e) div msPerDay) * msPerDay + 86399999 - tz_offset e)"

text \<open>\<^verbatim>\<open>d.getDate()\<close>: the day of the month in local time (NaN for an invalid date).\<close>

fun getDate :: "env \<Rightarrow> jsdate \<Rightarrow> int option" where
  "getDate e Invalid = None"
| "getDate e (Time t) =
     (case civil_from_days ((t + tz_offset e) div msPerDay) of (y, m, d) \<Rightarrow> Some d)"

text \<open>
  \<^verbatim>\<open>d.setDate(n)\<close>: the day of the month of \<open>d\<close> is replaced, year, month and time of
  day in local time are kept; days outside the month carry over.
\<close>

fun setDate :: "env \<Rightarrow> jsdate \<Rightarrow> int option \<Rightarrow> jsdate" where
  "setDate e (Time t) (Some n) =
     (let lt = t + tz_offset e
      in case civil_from_days (lt div msPerDay) of
           (y, m, d) \<Rightarrow>
             (case MakeDay y (m - 1) n of
                None \<Rightarrow> Invalid
              | Some day \<Rightarrow> TimeClip (day * msPerDay + lt mod msPerDay - tz_offset e)))"
| "setDate e _ _ = Invalid"

text \<open>
  \<^verbatim>\<open>d.toDateString()\<close> names the weekday, month, day and year of \<open>d\<close> in local time, or
  is \<^verbatim>\<open>Invalid Date\<close>; two such strings are equal exactly when both dates are invalid or
  both have the same local year, month and day. The string is kept as that triple.
\<close>

fun toDateString :: "env \<Rightarrow> jsdate \<Rightarrow> (int \<times> int \<times> int) option" where
  "toDateString e Invalid = None"
| "toDateString e (Time t) = Some (civil_from_days ((t + tz_offset e) div msPerDay))"

text \<open>\<^verbatim>\<open>a < b\<close> and \<^verbatim>\<open>a > b\<close> on dates compare the time values; NaN compares false.\<close>

fun date_lt :: "jsdate \<Rightarrow> jsdate \<Rightarrow> bool" where
  "date_lt (Time a) (Time b) = (a < b)"
| "date_lt _ _ = False"

definition date_gt :: "jsdate \<Rightarrow> jsdate \<Rightarrow> bool" where
  "date_gt a b = date_lt b a"

section \<open>The dashboard (second file of src/App.tsx)\<close>

subsection \<open>Column resolution and value cleaning\<close>

text \<open>
  \<^verbatim>\<open>findHeader(keys, indexHint)\<close>, lines 231-234: the header at the hinted position when
  there is a non-empty one, else the first header that equals or contains a key, case
  ignored.
\<close>

definition findHeader :: "string list \<Rightarrow> string list \<Rightarrow> nat option \<Rightarrow> string option" where
  "findHeader hs keys indexHint =
     (if indexHint \<noteq> None \<and> the indexHint < length hs \<and> hs ! the indexHint \<noteq> []
      then Some (hs ! the indexHint)
      else find (\<lambda>h. list_ex (\<lambda>k. toLowerCase h = toLowerCase k
                                  \<or> str_includes (toLowerCase h) (toLowerCase k)) keys) hs)"

record columns =
  colData :: "string option"
  colProduto :: "string option"
  colFaturamento :: "string option"
  colSource :: "string option"
  colCampaign :: "string option"
  colContent :: "string option"

text \<open>Lines 236-241. The last key has the code unit 0xFA (u with an acute accent).\<close>

definition resolve_columns :: "string list \<Rightarrow> columns" where
  "resolve_columns hs =
     \<lparr>colData = findHeader hs [''data venda'', ''data''] (Some 1),
      colProduto = findHeader hs [''produto''] (Some 8),
      colFaturamento = findHeader hs [''valor da venda'', ''valor''] (Some 12),
      colSource = findHeader hs [''utm_source'', ''source''] (Some 29),
      colCampaign = findHeader hs [''utm_campaign'', ''campanha''] (Some 31),
      colContent = findHeader hs [''utm_content'', ''conte'' @ [CHR 0xFA] @ ''do''] (Some 33)\<rparr>"

text \<open>\<^verbatim>\<open>col || ''\<close> and \<^verbatim>\<open>row[col || '']\<close>\<close>

definition col_or_empty :: "string option \<Rightarrow> string" where
  "col_or_empty col = (case col of None \<Rightarrow> [] | Some c \<Rightarrow> c)"

text \<open>\<^verbatim>\<open>cleanUTMSource\<close>, lines 245-254\<close>

definition cleanUTMSource :: "string \<Rightarrow> string" where
  "cleanUTMSource val =
     (if val = [] then ''organic''
      else let s = toLowerCase val
           in if str_includes s ''tiktok'' then ''tiktok''
              else if str_includes s ''facebook'' \<or> str_includes s ''fb'' then ''facebook''
              else if str_includes s ''instagram'' \<or> str_includes s ''ig'' then ''instagram''
              else if str_includes s ''google'' then ''google''
              else if str_includes s ''kwai'' then ''kwai''
              else val)"

text \<open>\<^verbatim>\<open>cleanUTMCampaign\<close>, lines 256-259\<close>

definition cleanUTMCampaign :: "string \<Rightarrow> string" where
  "cleanUTMCampaign val =
     (if val = [] then ''n/a'' else trim (hd (split_char CHR ''|'' val)))"

text \<open>
  \<^verbatim>\<open>parseBrazilianDate\<close>, lines 261-269; \<open>None\<close> is \<^verbatim>\<open>null\<close>. With exactly three parts
  between slashes the date object is returned as constructed, valid or not; only the
  fallback through \<^verbatim>\<open>new Date(dateStr)\<close> tests the time value for NaN.
\<close>

definition parseBrazilianDate :: "env \<Rightarrow> cell option \<Rightarrow> jsdate option" where
  "parseBrazilianDate e v =
     (case v of
        Some (Str dateStr) \<Rightarrow>
          if dateStr = [] then None
          else
            let parts = split_char CHR ''/'' (hd (split_char CHR '' '' dateStr))
            in if length parts = 3
               then Some (Date_ymd e (Number_of_string (parts ! 2))
                            (fsub (Number_of_string (parts ! 1)) (Fin 1))
                            (Number_of_string (parts ! 0)))
               else (case Date_of_string e dateStr of
                       Invalid \<Rightarrow> None
                     | Time t \<Rightarrow> Some (Time t))
      | _ \<Rightarrow> None)"

subsection \<open>Filtering: \<^verbatim>\<open>filteredRows\<close>, lines 302-344\<close>

datatype DatePreset = All | Today | Days7 | Days15 | Days30 | Custom

record query =
  filters :: "(string \<times> string list) list"
  searchTerm :: string
  datePreset :: DatePreset
  customStartDate :: string
  customEndDate :: string

text \<open>Lines 227-229: \<^verbatim>\<open>{ ...row, _id: index }\<close>\<close>

definition rowsWithIndex :: "DataRow list \<Rightarrow> DataRow list" where
  "rowsWithIndex rs =
     map (\<lambda>(row, index). row(''_id'' \<mapsto> Num (Fin (of_nat index)))) (zip rs [0 ..< length rs])"

text \<open>
  \<^verbatim>\<open>new Date()\<close> with its day of the month set to that of \<open>now\<close> less \<open>n\<close>
  (lines 313-314, 317-318, 321-322); \<open>now\<close> is the end of the current local day.
\<close>

definition days_ago :: "env \<Rightarrow> int \<Rightarrow> jsdate" where
  "days_ago e n =
     setDate e (Date_now e) (map_option (\<lambda>d. d - n) (getDate e (setHours_end e (Date_now e))))"

text \<open>
  Lines 306-330: whether the date restriction keeps the row. The test of line 308 is
  \<^verbatim>\<open>!rowDate\<close>, which holds for \<^verbatim>\<open>null\<close> and for nothing else.
\<close>

definition date_pass :: "env \<Rightarrow> columns \<Rightarrow> query \<Rightarrow> DataRow \<Rightarrow> bool" where
  "date_pass e cols q row =
     (if colData cols \<noteq> None \<and> colData cols \<noteq> Some [] \<and> datePreset q \<noteq> All then
        (case parseBrazilianDate e (row (the (colData cols))) of
           None \<Rightarrow> False
         | Some rowDate \<Rightarrow>
             if datePreset q = Today then
               \<not> (toDateString e rowDate \<noteq> toDateString e (Date_now e))
             else if datePreset q = Days7 then \<not> date_lt rowDate (days_ago e 7)
             else if datePreset q = Days15 then \<not> date_lt rowDate (days_ago e 15)
             else if datePreset q = Days30 then \<not> date_lt rowDate (days_ago e 30)
             else if datePreset q = Custom \<and> customStartDate q \<noteq> [] \<and> customEndDate q \<noteq> [] then
               \<not> (date_lt rowDate (Date_of_string e (customStartDate q))
                  \<or> date_gt rowDate (setHours_end e (Date_of_string e (customEndDate q))))
             else True)
      else True)"

text \<open>Lines 331-338; \<^verbatim>\<open>row[col] ?? 'N/A'\<close> replaces only \<^verbatim>\<open>undefined\<close>.\<close>

definition matchesFilters :: "columns \<Rightarrow> query \<Rightarrow> DataRow \<Rightarrow> bool" where
  "matchesFilters cols q row =
     list_all (\<lambda>(col, selectedValues).
        if length selectedValues = 0 then True
        else
          let rowVal0 = (case row col of None \<Rightarrow> ''N/A'' | Some c \<Rightarrow> String_of (Some c));
              rowVal1 = (if Some col = colSource cols then cleanUTMSource rowVal0 else rowVal0);
              rowVal = (if Some col = colCampaign cols then cleanUTMCampaign rowVal1 else rowVal1)
          in rowVal \<in> set selectedValues)
       (filters q)"

text \<open>Lines 339-341\<close>

definition matchesSearch :: "string list \<Rightarrow> query \<Rightarrow> DataRow \<Rightarrow> bool" where
  "matchesSearch hs q row =
     (searchTerm q = [] \<or>
      list_ex (\<lambda>h. str_includes (toLowerCase (String_of (row h))) (toLowerCase (searchTerm q))) hs)"

definition filteredRows :: "env \<Rightarrow> DashboardData \<Rightarrow> columns \<Rightarrow> query \<Rightarrow> DataRow list" where
  "filteredRows e data cols q =
     filter (\<lambda>row. date_pass e cols q row
                   \<and> matchesFilters cols q row \<and> matchesSearch (headers data) q row)
       (rowsWithIndex (rows data))"

subsection \<open>Grouping: \<^verbatim>\<open>groupedPerformance\<close>, lines 347-390\<close>

text \<open>
  A cluster. The sale count only ever grows by one from zero and is kept as a natural
  number. The table of clusters \<^verbatim>\<open>groups\<close> is an object whose property names all hold
  a \<^verbatim>\<open>|\<close>, so that \<^verbatim>\<open>Object.values\<close> lists its clusters in the order of their creation:
  it is kept as the list of the clusters in that order. \<^verbatim>\<open>productsMap\<close> is a finite map
  (product names that are members of \<^verbatim>\<open>Object.prototype\<close> are outside the model) and
  \<^verbatim>\<open>contents\<close>, a \<^verbatim>\<open>Set\<close>, the list of its elements in the order of their insertion.
\<close>

record Cluster =
  source :: string
  campanha :: string
  vendas :: nat
  faturamento :: number
  minDate :: string
  maxDate :: string
  productsMap :: "string \<rightharpoonup> nat"
  contents :: "string list"
  key :: string

text \<open>\<^verbatim>\<open>String(v || d)\<close> and \<^verbatim>\<open>Number(v) || 0\<close>\<close>

definition String_or :: "cell option \<Rightarrow> string \<Rightarrow> string" where
  "String_or v d = (if truthy v then String_of v else d)"

definition Number_or_0 :: "cell option \<Rightarrow> number" where
  "Number_or_0 v = (if truthy_number (Number_of v) then Number_of v else Fin 0)"

text \<open>\<^verbatim>\<open>Number(row[colFaturamento || '']) || 0\<close>, lines 357 and 443\<close>

definition rVal :: "columns \<Rightarrow> DataRow \<Rightarrow> number" where
  "rVal cols row = Number_or_0 (row (col_or_empty (colFaturamento cols)))"

definition row_key :: "columns \<Rightarrow> DataRow \<Rightarrow> string" where
  "row_key cols row =
     cleanUTMSource (String_or (row (col_or_empty (colSource cols))) [])
     @ ''|'' @ cleanUTMCampaign (String_or (row (col_or_empty (colCampaign cols))) [])"

text \<open>Lines 359-371: the cluster created for a key that has none yet.\<close>

definition new_cluster :: "columns \<Rightarrow> DataRow \<Rightarrow> Cluster" where
  "new_cluster cols row =
     (let rowDateStr = hd (split_char CHR '' '' (String_of (row (col_or_empty (colData cols)))))
      in \<lparr>source = cleanUTMSource (String_or (row (col_or_empty (colSource cols))) []),
          campanha = cleanUTMCampaign (String_or (row (col_or_empty (colCampaign cols))) []),
          vendas = 0,
          faturamento = Fin 0,
          minDate = rowDateStr,
          maxDate = rowDateStr,
          productsMap = Map.empty,
          contents = [],
          key = row_key cols row\<rparr>)"

text \<open>Lines 372-386: what one row adds to its cluster.\<close>

definition add_row :: "env \<Rightarrow> columns \<Rightarrow> DataRow \<Rightarrow> Cluster \<Rightarrow> Cluster" where
  "add_row e cols row g =
     (let prodName = String_or (row (col_or_empty (colProduto cols))) ''N/A'';
          content = String_or (row (col_or_empty (colContent cols))) ''N/A'';
          rowDateStr = hd (split_char CHR '' '' (String_of (row (col_or_empty (colData cols)))));
          dCurr = parseBrazilianDate e (Some (Str rowDateStr));
          dMin = parseBrazilianDate e (Some (Str (minDate g)));
          dMax = parseBrazilianDate e (Some (Str (maxDate g)))
      in g\<lparr>vendas := vendas g + 1,
           faturamento := fadd (faturamento g) (rVal cols row),
           productsMap := (productsMap g)
             (prodName \<mapsto> (case productsMap g prodName of None \<Rightarrow> 0 | Some n \<Rightarrow> n) + 1),
           contents := (if content \<in> set (contents g) then contents g else contents g @ [content]),
           minDate := (if dCurr \<noteq> None \<and> dMin \<noteq> None \<and> date_lt (the dCurr) (the dMin)
                       then rowDateStr else minDate g),
           maxDate := (if dCurr \<noteq> None \<and> dMax \<noteq> None \<and> date_gt (the dCurr) (the dMax)
                       then rowDateStr else maxDate g)\<rparr>)"

text \<open>The body of the \<^verbatim>\<open>forEach\<close>: the table of clusters after one more row.\<close>

definition group_step :: "env \<Rightarrow> columns \<Rightarrow> Cluster list \<Rightarrow> DataRow \<Rightarrow> Cluster list" where
  "group_step e cols groups row =
     (let k = row_key cols row;
          groups1 = (if list_ex (\<lambda>g. key g = k) groups then groups
                     else groups @ [new_cluster cols row])
      in map (\<lambda>g. if key g = k then add_row e cols row g else g) groups1)"

definition group_rows :: "env \<Rightarrow> columns \<Rightarrow> DataRow list \<Rightarrow> Cluster list" where
  "group_rows e cols rs = foldl (group_step e cols) [] rs"

text \<open>
  Line 389: \<^verbatim>\<open>Array.prototype.sort\<close> is stable; the comparator \<^verbatim>\<open>b.vendas - a.vendas\<close>
  orders by descending sale count.
\<close>

definition groupedPerformance :: "env \<Rightarrow> columns \<Rightarrow> DataRow list \<Rightarrow> Cluster list" where
  "groupedPerformance e cols rs = sort_key (\<lambda>g. - int (vendas g)) (group_rows e cols rs)"

subsection \<open>Rollup: \<^verbatim>\<open>stats\<close>, lines 441-449\<close>

record Stats =
  fat :: number
  gas :: number
  imp :: number
  luc :: number
  roas :: number

definition revenue_sum :: "columns \<Rightarrow> DataRow list \<Rightarrow> number" where
  "revenue_sum cols rs =
     foldl (\<lambda>acc row. fadd acc (rVal cols row)) (Fin 0) rs"

definition stats :: "columns \<Rightarrow> DataRow list \<Rightarrow> number \<Rightarrow> Stats" where
  "stats cols rs manualInvestment =
     (let f = revenue_sum cols rs;
          i = fmul f (round_double (6 / 100));
          g = manualInvestment;
          l = fsub (fsub f g) i;
          avgRoas = (if fgt g (Fin 0) then fdiv f g else Fin 0)
      in \<lparr>fat = f, gas = g, imp = i, luc = l, roas = avgRoas\<rparr>)"

subsection \<open>Per-cluster figures, lines 526-528 and 585-589\<close>

text \<open>\<^verbatim>\<open>groupInvestments[group.key] || 0\<close>\<close>

definition investment_of :: "(string \<rightharpoonup> number) \<Rightarrow> Cluster \<Rightarrow> number" where
  "investment_of groupInvestments g =
     (case groupInvestments (key g) of
        None \<Rightarrow> Fin 0
      | Some x \<Rightarrow> if truthy_number x then x else Fin 0)"

definition cpa :: "(string \<rightharpoonup> number) \<Rightarrow> Cluster \<Rightarrow> number" where
  "cpa groupInvestments g =
     (if 0 < vendas g then fdiv (investment_of groupInvestments g) (Fin (of_nat (vendas g)))
      else Fin 0)"

definition roi :: "(string \<rightharpoonup> number) \<Rightarrow> Cluster \<Rightarrow> number" where
  "roi groupInvestments g =
     (if fgt (investment_of groupInvestments g) (Fin 0)
      then fdiv (faturamento g) (investment_of groupInvestments g)
      else Fin 0)"

text \<open>
  Lines 585-589: the ROI cell shows the pending badge when the investment is zero, and
  the value of \<^verbatim>\<open>roi\<close> otherwise (\<open>None\<close> is the badge).
\<close>

definition roi_shown :: "(string \<rightharpoonup> number) \<Rightarrow> Cluster \<Rightarrow> number option" where
  "roi_shown groupInvestments g =
     (if investment_of groupInvestments g = Fin 0 then None else Some (roi groupInvestments g))"

section \<open>The specification's words, for comparison with the code\<close>

text \<open>
  The cleaned string of the scalar parser as section 4.1 of the specification describes
  it: outer white space and one layer of surrounding quotes are stripped; if the value
  holds a currency marker or a percent marker or is a decimal-comma numeral, the markers
  and all white space are removed and the decimal separator is normalised: with both a
  dot and a comma the dots are stripped and the comma becomes a dot, with only a comma
  it becomes a dot.
\<close>

definition cleaned_form :: "string \<Rightarrow> string" where
  "cleaned_form raw =
     (let stripped = strip_quotes (trim raw)
      in if str_includes stripped ''R$'' \<or> str_includes stripped ''%'' \<or> decimal_comma stripped
         then
           let bare = filter (\<lambda>c. \<not> isWhiteSpace c)
                        (replace_first (replace_first stripped ''R$'' []) ''%'' [])
           in if str_includes bare '','' \<and> str_includes bare ''.''
              then replace_first (filter (\<lambda>c. c \<noteq> CHR ''.'') bare) '','' ''.''
              else if str_includes bare '','' then replace_first bare '','' ''.''
              else bare
         else stripped)"

text \<open>The lines that remain after splitting on CRLF or LF and discarding blank lines.\<close>

definition nonblank_lines :: "string \<Rightarrow> string list" where
  "nonblank_lines csvText = filter (\<lambda>line. trim line \<noteq> []) (split_lines csvText)"

text \<open>The distinct elements of a list in the order of their first occurrence.\<close>

definition first_seen :: "'a list \<Rightarrow> 'a list" where
  "first_seen xs = foldl (\<lambda>acc x. if x \<in> set acc then acc else acc @ [x]) [] xs"


section \<open>Sample inputs\<close>

text \<open>
  An environment for evaluating the views on sample tables: the current instant is
  2024-01-10 12:00 UTC, local time is three hours behind UTC, and \<^verbatim>\<open>Date.parse\<close>
  accepts nothing.
\<close>

definition sample_env :: env where
  "sample_env = \<lparr>now_ms = 1704888000000, tz_offset = - 10800000, Date_parse = (\<lambda>s. None)\<rparr>"

text \<open>No filter, no search term, every date.\<close>

definition no_restriction :: query where
  "no_restriction =
     \<lparr>filters = [], searchTerm = [], datePreset = All, customStartDate = [], customEndDate = []\<rparr>"

text \<open>The views of the dashboard over a CSV text, the table being resolved as lines 236-241 do.\<close>

definition table_of :: "string \<Rightarrow> DashboardData" where
  "table_of csvText = the (parseCSV csvText)"

definition columns_of :: "string \<Rightarrow> columns" where
  "columns_of csvText = resolve_columns (headers (table_of csvText))"

definition filtered_of :: "env \<Rightarrow> string \<Rightarrow> query \<Rightarrow> DataRow list" where
  "filtered_of e csvText q = filteredRows e (table_of csvText) (columns_of csvText) q"

definition clusters_of :: "env \<Rightarrow> string \<Rightarrow> query \<Rightarrow> Cluster list" where
  "clusters_of e csvText q = groupedPerformance e (columns_of csvText) (filtered_of e csvText q)"

definition stats_of :: "env \<Rightarrow> string \<Rightarrow> query \<Rightarrow> number \<Rightarrow> Stats" where
  "stats_of e csvText q manualInvestment =
     stats (columns_of csvText) (filtered_of e csvText q) manualInvestment"


text \<open>The two sales of the end-to-end scenario of the specification, as a CSV text.\<close>

definition csv_scenario :: string where
  "csv_scenario =
     ''id,data,utm_source,utm_campaign,produto,valor\<newline>1,01/01/2024,fb_ads,Promo|v2,A,\"R$ 100,00\"\<newline>2,02/01/2024,google,Promo|v2,B,\"R$ 50,00\"''"

text \<open>A sale whose amount cell reads \<^verbatim>\<open>Infinity\<close>.\<close>

definition csv_infinite :: string where
  "csv_infinite = ''utm_source,data,valor\<newline>x,01/01/2024,Infinity''"

text \<open>A sale whose date cell has three parts between slashes that are not numbers.\<close>

definition csv_bad_date :: string where
  "csv_bad_date = ''id,data\<newline>1,a/b/c''"

text \<open>Two sales, the second with a date cell that does not parse.\<close>

definition csv_dates :: string where
  "csv_dates = ''id,data\<newline>1,01/01/2024\<newline>2,x''"

text \<open>The date presets applied alone.\<close>

definition preset_only :: "DatePreset \<Rightarrow> string \<Rightarrow> string \<Rightarrow> query" where
  "preset_only p start end =
     \<lparr>filters = [], searchTerm = [], datePreset = p, customStartDate = start, customEndDate = end\<rparr>"

section \<open>Rounding to binary64\<close>

text \<open>
  \<open>floor_log2\<close> is the binary exponent of a positive value, so that \<open>round_double\<close>
  rounds to a multiple of the unit in the last place of the binade of its argument.
\<close>

lemma bitlen_powi_bounds:
  assumes "0 < p"
  shows "2 powi (bitlen p - 1) \<le> (of_int p :: rat)" and "(of_int p :: rat) < 2 powi (bitlen p)"
proof -
  have b: "1 \<le> bitlen p"
    using assms bitlen_eq_zero_iff [of p] bitlen_nonneg [of p] by linarith
  from bitlen_bounds [OF assms]
  have lo: "2 ^ nat (bitlen p - 1) \<le> p" and hi: "p < 2 ^ nat (bitlen p)"
    by simp_all
  have "(of_int (2 ^ nat (bitlen p - 1)) :: rat) \<le> of_int p"
    using lo by (simp only: of_int_le_iff)
  then show "2 powi (bitlen p - 1) \<le> (of_int p :: rat)"
    using b by (simp add: power_int_nonneg_exp)
  have "(of_int p :: rat) < of_int (2 ^ nat (bitlen p))"
    using hi by (simp only: of_int_less_iff)
  then show "(of_int p :: rat) < 2 powi (bitlen p)"
    using b by (simp add: power_int_nonneg_exp)
qed

lemma powi2_pos [simp]: "0 < (2::rat) powi i"
  by simp

lemma powi2_add: "(2::rat) powi (i + j) = 2 powi i * 2 powi j"
  by (simp add: power_int_add)

lemma powi2_less: "i < j \<Longrightarrow> (2::rat) powi i < 2 powi j"
  by (rule power_int_strict_increasing) simp_all

lemma powi2_le: "i \<le> j \<Longrightarrow> (2::rat) powi i \<le> 2 powi j"
  by (rule power_int_increasing) simp_all

lemma floor_log2_bounds:
  assumes "0 < a"
  shows "2 powi (floor_log2 a) \<le> a" and "a < 2 powi (floor_log2 a + 1)"
proof -
  obtain p q where pq: "quotient_of a = (p, q)"
    by (cases "quotient_of a")
  have q: "0 < q"
    using quotient_of_denom_pos [OF pq] .
  have a: "a = of_int p / of_int q"
    using quotient_of_div [OF pq] .
  have p: "0 < p"
    using assms q a by (simp add: zero_less_divide_iff)
  define d where "d = bitlen p - bitlen q"
  have qr: "(0::rat) < of_int q"
    using q by simp
  have up: "a < 2 powi (d + 1)"
  proof -
    have "of_int p < (2::rat) powi (bitlen p)"
      by (rule bitlen_powi_bounds [OF p])
    also have "\<dots> = 2 powi (d + 1) * 2 powi (bitlen q - 1)"
      by (simp add: d_def flip: powi2_add)
    also have "\<dots> \<le> 2 powi (d + 1) * of_int q"
      by (rule mult_left_mono [OF bitlen_powi_bounds(1) [OF q]]) simp
    finally show ?thesis
      using qr by (simp add: a pos_divide_less_eq)
  qed
  have low: "2 powi (d - 1) < a"
  proof -
    have "2 powi (d - 1) * of_int q < (2::rat) powi (d - 1) * 2 powi (bitlen q)"
      by (rule mult_strict_left_mono [OF bitlen_powi_bounds(2) [OF q]]) simp
    also have "\<dots> = 2 powi (bitlen p - 1)"
      by (simp add: d_def flip: powi2_add)
    also have "\<dots> \<le> of_int p"
      by (rule bitlen_powi_bounds [OF p])
    finally show ?thesis
      using qr by (simp add: a pos_less_divide_eq)
  qed
  have fl: "floor_log2 a = (if 2 powi d \<le> a then d else d - 1)"
    by (simp add: floor_log2_def pq d_def Let_def)
  show "2 powi (floor_log2 a) \<le> a"
    using low by (simp add: fl)
  show "a < 2 powi (floor_log2 a + 1)"
    using up by (simp add: fl)
qed

lemma floor_log2_unique:
  assumes "0 < a" "2 powi e \<le> a" "a < 2 powi (e + 1)"
  shows "floor_log2 a = e"
proof -
  have "\<not> e + 1 \<le> floor_log2 a"
  proof
    assume "e + 1 \<le> floor_log2 a"
    then have "(2::rat) powi (e + 1) \<le> 2 powi (floor_log2 a)"
      by (rule powi2_le)
    with floor_log2_bounds(1) [OF assms(1)] assms(3) show False
      by linarith
  qed
  moreover have "\<not> floor_log2 a + 1 \<le> e"
  proof
    assume "floor_log2 a + 1 \<le> e"
    then have "(2::rat) powi (floor_log2 a + 1) \<le> 2 powi e"
      by (rule powi2_le)
    with floor_log2_bounds(2) [OF assms(1)] assms(2) show False
      by linarith
  qed
  ultimately show ?thesis
    by linarith
qed

lemma round_half_even_near:
  assumes "\<bar>q - of_int n\<bar> < 1 / 2"
  shows "round_half_even q = n"
proof (cases "of_int n \<le> q")
  case True
  then have "\<lfloor>q\<rfloor> = n"
    using assms by (intro floor_unique) (auto simp: abs_if split: if_splits)
  then show ?thesis
    using assms True by (simp add: round_half_even_def Let_def)
next
  case False
  then have "\<lfloor>q\<rfloor> = n - 1"
    using assms by (intro floor_unique) (auto simp: abs_if split: if_splits)
  then show ?thesis
    using assms False by (simp add: round_half_even_def Let_def abs_if split: if_splits)
qed

lemma round_half_even_of_int [simp]: "round_half_even (of_int n) = n"
  by (rule round_half_even_near) simp

lemma round_double_minus: "round_double (- r) = fneg (round_double r)"
  by (simp add: round_double_def Let_def)

lemma round_double_pos:
  "0 < r \<Longrightarrow> round_double r =
     (let u = 2 powi (max (floor_log2 r) (- 1022) - 52);
          m = of_int (round_half_even (r / u)) * u
      in if 2 powi 1024 \<le> m then PInf else Fin m)"
  by (simp add: round_double_def Let_def)

text \<open>Rounding within a binade of normal numbers.\<close>

lemma round_double_near:
  assumes "2 powi (k + 52) \<le> r" "r < 2 powi (k + 53)" "- 1074 \<le> k"
    and "\<bar>r / 2 powi k - of_int n\<bar> < 1 / 2"
    and "of_int n * 2 powi k < (2::rat) powi 1024"
  shows "round_double r = Fin (of_int n * 2 powi k)"
proof -
  have r: "0 < r"
    using assms(1) powi2_pos [of "k + 52"] by linarith
  have "floor_log2 r = k + 52"
    using r assms(1,2) by (intro floor_log2_unique) (simp_all add: add.commute add.left_commute)
  then have e: "max (floor_log2 r) (- 1022) - 52 = k"
    using assms(3) by simp
  have "round_half_even (r / 2 powi k) = n"
    using assms(4) by (intro round_half_even_near) simp
  then show ?thesis
    using r assms(5) by (simp add: round_double_pos Let_def e)
qed

text \<open>Values with at most 53 significant bits are not changed.\<close>

lemma round_double_dyadic:
  assumes "0 < j" "j < 2 ^ 53" "- 1074 \<le> k" "k \<le> 970"
  shows "round_double (of_int j * 2 powi k) = Fin (of_int j * 2 powi k)"
proof -
  define r :: rat where "r = of_int j * 2 powi k"
  have r: "0 < r"
    using assms(1) by (simp add: r_def)
  have j1: "(1::rat) \<le> of_int j"
    using assms(1) by simp
  have "(of_int j :: rat) < of_int (2 ^ 53)"
    using assms(2) by (simp only: of_int_less_iff)
  then have j2: "(of_int j :: rat) < 2 powi 53"
    by simp
  have lo: "2 powi k \<le> r"
    using j1 by (simp add: r_def)
  have hi: "r < 2 powi (k + 53)"
    using mult_strict_right_mono [OF j2 powi2_pos [of k]] by (simp add: r_def powi2_add mult.commute)
  define e where "e = max (floor_log2 r) (- 1022)"
  have "\<not> floor_log2 r + 1 \<le> k"
  proof
    assume "floor_log2 r + 1 \<le> k"
    then have "(2::rat) powi (floor_log2 r + 1) \<le> 2 powi k"
      by (rule powi2_le)
    with floor_log2_bounds(2) [OF r] lo show False
      by linarith
  qed
  moreover have "\<not> k + 53 \<le> floor_log2 r"
  proof
    assume "k + 53 \<le> floor_log2 r"
    then have "(2::rat) powi (k + 53) \<le> 2 powi (floor_log2 r)"
      by (rule powi2_le)
    with floor_log2_bounds(1) [OF r] hi show False
      by linarith
  qed
  ultimately have e: "0 \<le> k + 52 - e"
    using assms(3) by (simp add: e_def)
  have "r / 2 powi (e - 52) = of_int j * 2 powi (k + 52 - e)"
    by (simp add: r_def power_int_diff power_int_add field_simps)
  also have "\<dots> = of_int (j * 2 ^ nat (k + 52 - e))"
    using e by (simp add: power_int_nonneg_exp)
  finally have q: "r / 2 powi (e - 52) = of_int (j * 2 ^ nat (k + 52 - e))" .
  have restore: "of_int (j * 2 ^ nat (k + 52 - e)) * 2 powi (e - 52) = r"
    unfolding q [symmetric] by simp
  have "r < 2 powi 1024"
  proof -
    have "(2::rat) powi (k + 53) \<le> 2 powi 1024"
      using assms(4) by (intro powi2_le) simp
    with hi show ?thesis
      by linarith
  qed
  then have "round_double r = Fin r"
    using r by (simp add: round_double_pos Let_def e_def [symmetric] q restore del: of_int_mult of_int_power)
  then show ?thesis
    by (simp only: r_def)
qed

lemma round_double_of_int:
  assumes "\<bar>j\<bar> < 2 ^ 53"
  shows "round_double (of_int j) = Fin (of_int j)"
proof -
  consider "j = 0" | "0 < j" | "j < 0"
    by linarith
  then show ?thesis
  proof cases
    case 1
    then show ?thesis by (simp add: round_double_def)
  next
    case 2
    with assms round_double_dyadic [of j 0] show ?thesis by simp
  next
    case 3
    with assms round_double_dyadic [of "- j" 0] have "round_double (of_int (- j)) = Fin (of_int (- j))"
      by simp
    then have "fneg (round_double (of_int j)) = Fin (- of_int j)"
      by (simp add: round_double_minus)
    then show ?thesis
      by (cases "round_double (of_int j)") simp_all
  qed
qed

lemma round_double_numeral:
  "numeral w < (2::int) ^ 53 \<Longrightarrow> round_double (numeral w) = Fin (numeral w)"
  using round_double_of_int [of "numeral w"] by simp

lemma round_double_0 [simp]: "round_double 0 = Fin 0"
  by (simp add: round_double_def)

lemma round_double_1 [simp]: "round_double 1 = Fin 1"
  using round_double_of_int [of 1] by simp

text \<open>Values below \<open>2 powi 1023\<close> in magnitude do not overflow.\<close>

lemma round_half_even_le:
  assumes "q \<le> of_int k"
  shows "round_half_even q \<le> k"
proof -
  have f: "\<lfloor>q\<rfloor> \<le> k"
    using assms by (simp add: floor_le_iff)
  show ?thesis
  proof (cases "q - of_int \<lfloor>q\<rfloor> < 1 / 2")
    case True
    with f show ?thesis
      by (simp add: round_half_even_def Let_def)
  next
    case False
    then have "of_int \<lfloor>q\<rfloor> < q"
      by linarith
    with assms have "(of_int \<lfloor>q\<rfloor> :: rat) < of_int k"
      by linarith
    then have "\<lfloor>q\<rfloor> < k"
      by (simp only: of_int_less_iff)
    then show ?thesis
      by (simp add: round_half_even_def Let_def)
  qed
qed

lemma isFinite_fneg [simp]: "isFinite (fneg x) = isFinite x"
  by (cases x) simp_all

lemma round_double_finite_pos:
  assumes "0 < r" "r < 2 powi 1023"
  shows "isFinite (round_double r)"
proof -
  define e where "e = max (floor_log2 r) (- 1022)"
  define u :: rat where "u = 2 powi (e - 52)"
  have u: "0 < u"
    by (simp add: u_def)
  have "\<not> 1023 \<le> floor_log2 r"
  proof
    assume "1023 \<le> floor_log2 r"
    then have "(2::rat) powi 1023 \<le> 2 powi (floor_log2 r)"
      by (rule powi2_le)
    with floor_log2_bounds(1) [OF assms(1)] assms(2) show False
      by linarith
  qed
  then have e: "floor_log2 r \<le> e" "e \<le> 1022"
    by (simp_all add: e_def)
  have "r < 2 powi (floor_log2 r + 1)"
    by (rule floor_log2_bounds [OF assms(1)])
  also have "\<dots> \<le> 2 powi (e + 1)"
    using e(1) by (intro powi2_le) simp
  also have "\<dots> = of_int (2 ^ 53) * u"
    by (simp add: u_def flip: power_int_add_numeral) (simp add: power_int_diff power_int_add)
  finally have "r / u < of_int (2 ^ 53)"
    using u by (simp add: pos_divide_less_eq)
  then have "round_half_even (r / u) \<le> 2 ^ 53"
    by (intro round_half_even_le) linarith
  then have "(of_int (round_half_even (r / u)) :: rat) \<le> of_int (2 ^ 53)"
    by (simp only: of_int_le_iff)
  then have "of_int (round_half_even (r / u)) * u \<le> of_int (2 ^ 53) * u"
    using u by (intro mult_right_mono) simp_all
  also have "of_int (2 ^ 53) * u = 2 powi (e + 1)"
    by (simp add: u_def flip: power_int_add_numeral) (simp add: power_int_diff power_int_add)
  also have "\<dots> \<le> 2 powi 1023"
    using e(2) by (intro powi2_le) simp
  also have "\<dots> < (2::rat) powi 1024"
    by (intro powi2_less) simp
  finally have "\<not> 2 powi 1024 \<le> of_int (round_half_even (r / u)) * u"
    by simp
  then show ?thesis
    using assms(1) by (simp add: round_double_pos Let_def e_def [symmetric] u_def [symmetric])
qed

lemma round_double_finite:
  assumes "\<bar>r\<bar> < 2 powi 1023"
  shows "isFinite (round_double r)"
proof -
  consider "r = 0" | "0 < r" | "r < 0"
    by linarith
  then show ?thesis
  proof cases
    case 1
    then show ?thesis by simp
  next
    case 2
    with assms show ?thesis
      by (intro round_double_finite_pos) simp_all
  next
    case 3
    with assms have "isFinite (round_double (- r))"
      by (intro round_double_finite_pos) simp_all
    then show ?thesis
      by (simp add: round_double_minus)
  qed
qed

lemma fdiv_finite:
  assumes "\<bar>a\<bar> < 2 powi 1023" "1 \<le> b"
  shows "isFinite (fdiv (Fin a) (Fin b))"
proof -
  have "\<bar>a\<bar> * 1 \<le> \<bar>a\<bar> * b"
    using assms(2) by (intro mult_left_mono) simp_all
  then have "\<bar>a / b\<bar> \<le> \<bar>a\<bar>"
    using assms(2) by (simp add: field_simps)
  with assms(1) have "\<bar>a / b\<bar> < 2 powi 1023"
    by linarith
  from round_double_finite [OF this] assms(2) show ?thesis
    by simp
qed

lemma round_double_not_NaN [simp]: "\<not> isNaN (round_double r)"
  by (simp add: round_double_def Let_def)

section \<open>Evaluation of the string and number functions on literals\<close>

lemmas str_eval = trim_def isWhiteSpace_def isDigit_def strip_quotes_def decimal_comma_def
  startsWith_def

lemmas num_eval = Number_of_string_def nondecimal_def unsigned_decimal_def exponent_part_def
  radix_val_def digit_val_def isHexDigit_def isOctalDigit_def isBinaryDigit_def

lemma round_double_1234_56:
  "round_double (30864 / 25) = Fin (2714826150374277 / 2199023255552)"
  using round_double_near [of "-42" "30864/25" 5429652300748554] by simp

lemma round_double_12_5: "round_double (25 / 2) = Fin (25 / 2)"
  using round_double_dyadic [of 25 "-1"] by simp

section \<open>The scalar parser\<close>

lemma cleanAndParse_cleaned_form:
  "cleanAndParse val =
     (if isNaN (Number_of_string (cleaned_form val)) \<or> cleaned_form val = []
      then Str (cleaned_form val) else Num (Number_of_string (cleaned_form val)))"
  by (simp add: cleanAndParse_def cleaned_form_def Let_def strip_quotes_def decimal_comma_def)

text \<open>
  Claim C5 says that an input whose cleaned form does not convert to a number comes back
  unchanged apart from quote and white space stripping and marker removal. With a marker
  present the decimal separator is normalised as well, whether or not the string is a
  numeral: \<^verbatim>\<open>a,b%\<close> does not convert, and the result \<^verbatim>\<open>a.b\<close> holds a dot that the input
  does not have.
\<close>

theorem cleanAndParse_comma_becomes_dot:
  "cleanAndParse ''a,b%'' = Str ''a.b'' \<and> isNaN (Number_of_string ''a.b'')
   \<and> CHR ''.'' \<notin> set ''a,b%''"
  by (simp add: cleanAndParse_def str_eval num_eval)

text \<open>
  C5, amended: \<^verbatim>\<open>R$ 1.234,56\<close> parses to the Number 1234.56 (the binary64 value nearest
  to it), \<^verbatim>\<open>12,5%\<close> to 12.5 and \<^verbatim>\<open>42\<close> to 42; for every input whose cleaned form does
  not convert to a number the result is that cleaned form, which is the input after quote
  and white space stripping, marker removal and the normalisation of the decimal
  separator of section 4.1; and when the stripped input has no marker and is not a
  decimal-comma numeral, it is the input with only outer white space and one layer of
  quotes stripped.
\<close>

theorem cleanAndParse_scalars:
  "cleanAndParse ''R$ 1.234,56'' = Num (round_double (123456 / 100))
   \<and> cleanAndParse ''12,5%'' = Num (Fin (25 / 2))
   \<and> cleanAndParse ''42'' = Num (Fin 42)
   \<and> (\<forall>val. isNaN (Number_of_string (cleaned_form val)) \<or> cleaned_form val = []
         \<longrightarrow> cleanAndParse val = Str (cleaned_form val))
   \<and> (\<forall>val. \<not> str_includes (strip_quotes (trim val)) ''R$''
           \<and> \<not> str_includes (strip_quotes (trim val)) ''%''
           \<and> \<not> decimal_comma (strip_quotes (trim val))
         \<longrightarrow> cleaned_form val = strip_quotes (trim val))"
proof (intro conjI allI impI)
  show "cleanAndParse ''R$ 1.234,56'' = Num (round_double (123456 / 100))"
    by (simp add: cleanAndParse_def str_eval num_eval round_double_1234_56)
  show "cleanAndParse ''12,5%'' = Num (Fin (25 / 2))"
    by (simp add: cleanAndParse_def str_eval num_eval round_double_12_5)
  show "cleanAndParse ''42'' = Num (Fin 42)"
    by (simp add: cleanAndParse_def str_eval num_eval round_double_numeral)
next
  fix val
  assume "isNaN (Number_of_string (cleaned_form val)) \<or> cleaned_form val = []"
  then show "cleanAndParse val = Str (cleaned_form val)"
    by (simp add: cleanAndParse_cleaned_form)
next
  fix val
  assume "\<not> str_includes (strip_quotes (trim val)) ''R$''
           \<and> \<not> str_includes (strip_quotes (trim val)) ''%''
           \<and> \<not> decimal_comma (strip_quotes (trim val))"
  then show "cleaned_form val = strip_quotes (trim val)"
    by (simp add: cleaned_form_def)
qed

theorem cleanAndParse_scalars_witness:
  "isNaN (Number_of_string (cleaned_form ''R$ n/a'')) \<and> cleanAndParse ''R$ n/a'' = Str ''n/a''
   \<and> \<not> str_includes (strip_quotes (trim '' \"abc\"'')) ''R$''
   \<and> \<not> str_includes (strip_quotes (trim '' \"abc\"'')) ''%''
   \<and> \<not> decimal_comma (strip_quotes (trim '' \"abc\"''))
   \<and> cleaned_form '' \"abc\"'' = ''abc''"
proof -
  have c: "cleaned_form ''R$ n/a'' = ''n/a''"
    by (simp add: cleaned_form_def str_eval)
  have n: "isNaN (Number_of_string ''n/a'')"
    by (simp add: str_eval num_eval)
  have s: "strip_quotes (trim '' \"abc\"'') = ''abc''"
    by (simp add: str_eval)
  have m: "\<not> str_includes ''abc'' ''R$'' \<and> \<not> str_includes ''abc'' ''%'' \<and> \<not> decimal_comma ''abc''"
    by (simp add: str_eval)
  from cleanAndParse_scalars
  have "isNaN (Number_of_string (cleaned_form ''R$ n/a'')) \<or> cleaned_form ''R$ n/a'' = []
          \<longrightarrow> cleanAndParse ''R$ n/a'' = Str (cleaned_form ''R$ n/a'')"
    and "\<not> str_includes (strip_quotes (trim '' \"abc\"'')) ''R$''
           \<and> \<not> str_includes (strip_quotes (trim '' \"abc\"'')) ''%''
           \<and> \<not> decimal_comma (strip_quotes (trim '' \"abc\"''))
         \<longrightarrow> cleaned_form '' \"abc\"'' = strip_quotes (trim '' \"abc\"'')"
    by blast+
  with c n s m show ?thesis
    by simp
qed

section \<open>The table builder\<close>

lemma cons_first_length [simp]: "ps \<noteq> [] \<Longrightarrow> length (cons_first x ps) = length ps"
  by (cases ps) simp_all

lemma cons_first_not_Nil [simp]: "cons_first x ps \<noteq> []"
  by (cases ps) simp_all

lemma split_char_not_Nil [simp]: "split_char c s \<noteq> []"
  by (induction s) simp_all

lemma length_split_char: "length (split_char c s) = Suc (length (filter (\<lambda>x. x = c) s))"
  by (induction s) simp_all

lemma make_row_snoc:
  "make_row (hs @ [h]) vals =
     (make_row hs vals)(h \<mapsto> cleanAndParse (if length hs < length vals then vals ! length hs else []))"
  by (simp add: make_row_def)

lemma cleanAndParse_empty [simp]: "cleanAndParse [] = Str []"
  by (simp add: cleanAndParse_def trim_def)

lemma make_row_Nil [simp]: "make_row [] vals = Map.empty"
  by (simp add: make_row_def)

lemma make_row_missing:
  "j < length hs \<Longrightarrow> length vals \<le> j \<Longrightarrow> make_row hs vals (hs ! j) = Some (Str [])"
proof (induction hs rule: rev_induct)
  case Nil
  then show ?case by simp
next
  case (snoc h hs)
  show ?case
  proof (cases "j < length hs")
    case True
    with snoc show ?thesis
      by (simp add: make_row_snoc nth_append)
  next
    case False
    with snoc.prems have "j = length hs"
      by simp
    with snoc.prems show ?thesis
      by (simp add: make_row_snoc)
  qed
qed

lemma parseCSV_Some:
  "nonblank_lines csvText = h # dl \<Longrightarrow>
   parseCSV csvText =
     Some \<lparr>headers = map (\<lambda>h. strip_quotes (trim h)) (split_char CHR '','' h),
           rows = map (\<lambda>line. make_row (map (\<lambda>h. strip_quotes (trim h)) (split_char CHR '','' h))
                                 (map trim (split_fields line))) dl,
           types = foldl (\<lambda>t header. t(header \<mapsto>
                      infer_type (map (\<lambda>line. make_row (map (\<lambda>h. strip_quotes (trim h)) (split_char CHR '','' h))
                                 (map trim (split_fields line))) dl) header)) Map.empty
                     (map (\<lambda>h. strip_quotes (trim h)) (split_char CHR '','' h))\<rparr>"
  by (simp add: parseCSV_def nonblank_lines_def Let_def)

lemma parseCSV_None: "parseCSV csvText = None \<longleftrightarrow> nonblank_lines csvText = []"
  by (simp add: parseCSV_def nonblank_lines_def Let_def)

text \<open>
  C7: \<^verbatim>\<open>parseCSV\<close> returns \<^verbatim>\<open>null\<close> exactly when no non-blank line remains after
  splitting on CRLF or LF. Otherwise, with \<open>h\<close> the first non-blank line and \<open>dl\<close> the
  non-blank lines after it, it returns a table with as many rows as \<open>dl\<close> has lines and
  as many headers as \<open>h\<close> has commas plus one; and in the row of a line with fewer fields
  than there are headers, every header position from the number of fields on holds the
  empty string.
\<close>

theorem parseCSV_shape:
  "(parseCSV csvText = None \<longleftrightarrow> nonblank_lines csvText = [])
   \<and> (\<forall>h dl. nonblank_lines csvText = h # dl \<longrightarrow>
        (\<exists>d. parseCSV csvText = Some d
           \<and> length (rows d) = length dl
           \<and> length (headers d) = Suc (length (filter (\<lambda>c. c = CHR '','') h))
           \<and> (\<forall>i < length dl. \<forall>j < length (headers d).
                 length (split_fields (dl ! i)) \<le> j \<longrightarrow> (rows d ! i) (headers d ! j) = Some (Str []))))"
proof (intro conjI allI impI)
  show "parseCSV csvText = None \<longleftrightarrow> nonblank_lines csvText = []"
    by (rule parseCSV_None)
next
  fix h dl
  assume l: "nonblank_lines csvText = h # dl"
  define hs where "hs = map (\<lambda>h. strip_quotes (trim h)) (split_char CHR '','' h)"
  define rs where "rs = map (\<lambda>line. make_row hs (map trim (split_fields line))) dl"
  define d where
    "d = \<lparr>headers = hs, rows = rs,
          types = foldl (\<lambda>t header. t(header \<mapsto> infer_type rs header)) Map.empty hs\<rparr>"
  have p: "parseCSV csvText = Some d"
    by (simp add: parseCSV_Some [OF l] d_def rs_def hs_def)
  have n: "length (headers d) = Suc (length (filter (\<lambda>c. c = CHR '','') h))"
    by (simp add: d_def hs_def length_split_char)
  have m: "(rows d ! i) (headers d ! j) = Some (Str [])"
    if "i < length dl" "j < length (headers d)" "length (split_fields (dl ! i)) \<le> j" for i j
  proof -
    have "rows d ! i = make_row hs (map trim (split_fields (dl ! i)))"
      using that(1) by (simp add: d_def rs_def)
    moreover have "j < length hs"
      using that(2) by (simp add: d_def)
    ultimately show ?thesis
      using that(3) by (simp add: make_row_missing d_def)
  qed
  have "length (rows d) = length dl"
    by (simp add: d_def rs_def)
  with p n m
  show "\<exists>d. parseCSV csvText = Some d
           \<and> length (rows d) = length dl
           \<and> length (headers d) = Suc (length (filter (\<lambda>c. c = CHR '','') h))
           \<and> (\<forall>i < length dl. \<forall>j < length (headers d).
                 length (split_fields (dl ! i)) \<le> j \<longrightarrow> (rows d ! i) (headers d ! j) = Some (Str []))"
    by blast
qed


theorem parseCSV_shape_witness:
  "nonblank_lines ''a,b,c\<newline>\<newline>1'' = [''a,b,c'', ''1'']
   \<and> (\<exists>d. parseCSV ''a,b,c\<newline>\<newline>1'' = Some d \<and> length (rows d) = 1 \<and> length (headers d) = 3
          \<and> (rows d ! 0) (headers d ! 1) = Some (Str []) \<and> (rows d ! 0) (headers d ! 2) = Some (Str []))"
proof -
  have l: "nonblank_lines ''a,b,c\<newline>\<newline>1'' = [''a,b,c'', ''1'']"
    by (simp add: nonblank_lines_def str_eval)
  have f: "length (split_fields ''1'') = 1"
    by simp
  from parseCSV_shape [of "''a,b,c\<newline>\<newline>1''"] l
  obtain d where d: "parseCSV ''a,b,c\<newline>\<newline>1'' = Some d" "length (rows d) = 1"
      "length (headers d) = 3"
      "\<forall>i < 1. \<forall>j < length (headers d).
          length (split_fields ([''1''] ! i)) \<le> j \<longrightarrow> (rows d ! i) (headers d ! j) = Some (Str [])"
    by auto
  from d(3,4) f have "(rows d ! 0) (headers d ! 1) = Some (Str [])" "(rows d ! 0) (headers d ! 2) = Some (Str [])"
    by simp_all
  with l d show ?thesis
    by blast
qed


lemma foldl_upd_types:
  "foldl (\<lambda>t header. t(header \<mapsto> f header)) m hs h =
     (if h \<in> set hs then Some (f h) else m h)"
  by (induction hs arbitrary: m) auto

lemma is_number_simps [simp]:
  "is_number None = False" "is_number (Some (Str s)) = False" "is_number (Some (Num x)) = True"
  by (simp_all add: is_number_def)

lemma infer_type_iff:
  "infer_type rs h = (if \<exists>r \<in> set rs. is_number (r h) then TNumber else TString)"
proof -
  let ?P = "\<lambda>r. r h \<noteq> None \<and> r h \<noteq> Some (Str []) \<and> is_number (r h)"
  have P: "?P r = is_number (r h)" for r
    by (auto simp: is_number_def split: option.splits cell.splits)
  show ?thesis
  proof (cases "find ?P rs")
    case None
    then have "\<not> (\<exists>r \<in> set rs. is_number (r h))"
      by (auto simp: find_None_iff P)
    with None show ?thesis
      by (simp add: infer_type_def)
  next
    case (Some r)
    then have "r \<in> set rs" "is_number (r h)"
      using P by (auto simp: find_Some_iff)
    with Some show ?thesis
      by (auto simp: infer_type_def)
  qed
qed

lemmas cell_eval = cleanAndParse_def str_eval num_eval

lemma cell_abc: "cleanAndParse ''abc'' = Str ''abc''"
  by (simp add: cleanAndParse_def str_eval num_eval)

lemma cell_10: "cleanAndParse ''10'' = Num (Fin 10)"
  by (simp add: cleanAndParse_def str_eval num_eval round_double_numeral)

lemma cell_1: "cleanAndParse ''1'' = Num (Fin 1)"
  by (simp add: cleanAndParse_def str_eval num_eval)

text \<open>
  Claim C1 says that a column whose first non-empty value is textual is typed textual even
  when a later value is numeric. The search of line 61 skips every value that is not a
  number, so it finds the later number: the column \<^verbatim>\<open>c\<close> with the values \<^verbatim>\<open>abc\<close>, \<^verbatim>\<open>10\<close>
  is typed numeric.
\<close>

theorem type_of_mixed_column:
  "map_option (\<lambda>d. (map (\<lambda>r. r ''c'') (rows d), types d ''c'')) (parseCSV ''c\<newline>abc\<newline>10'')
     = Some ([Some (Str ''abc''), Some (Num (Fin 10))], Some TNumber)"
proof -
  have l: "nonblank_lines ''c\<newline>abc\<newline>10'' = [''c'', ''abc'', ''10'']"
    by (simp add: nonblank_lines_def str_eval)
  show ?thesis
    by (simp add: parseCSV_Some [OF l] str_eval make_row_def cell_abc cell_10 infer_type_iff)
qed


text \<open>
  C1, amended: for every table that \<^verbatim>\<open>parseCSV\<close> produces and every header, the inferred
  type of the column is numeric if and only if some row holds a number for that header,
  and textual otherwise. The first non-empty value decides only when it is a number.
\<close>

theorem parseCSV_types:
  "parseCSV csvText = Some d \<Longrightarrow> h \<in> set (headers d) \<Longrightarrow>
   types d h = Some (if \<exists>r \<in> set (rows d). is_number (r h) then TNumber else TString)"
  by (auto simp: parseCSV_def Let_def foldl_upd_types infer_type_iff split: if_splits)

theorem parseCSV_types_witness:
  "parseCSV ''c,x\<newline>,1\<newline>10,1\<newline>abc,1'' \<noteq> None
   \<and> ''c'' \<in> set (headers (the (parseCSV ''c,x\<newline>,1\<newline>10,1\<newline>abc,1'')))
   \<and> map (\<lambda>r. r ''c'') (rows (the (parseCSV ''c,x\<newline>,1\<newline>10,1\<newline>abc,1'')))
       = [Some (Str []), Some (Num (Fin 10)), Some (Str ''abc'')]
   \<and> types (the (parseCSV ''c,x\<newline>,1\<newline>10,1\<newline>abc,1'')) ''c'' = Some TNumber"
proof -
  let ?csv = "''c,x\<newline>,1\<newline>10,1\<newline>abc,1''"
  have l: "nonblank_lines ?csv = [''c,x'', '',1'', ''10,1'', ''abc,1'']"
    by (simp add: nonblank_lines_def str_eval)
  obtain d where d: "parseCSV ?csv = Some d"
    using parseCSV_Some [OF l] by blast
  have h: "headers d = [''c'', ''x'']"
    using d by (auto simp: parseCSV_Some [OF l] str_eval)
  have r: "map (\<lambda>r. r ''c'') (rows d) = [Some (Str []), Some (Num (Fin 10)), Some (Str ''abc'')]"
    using d by (auto simp: parseCSV_Some [OF l] str_eval make_row_def cell_abc cell_10 cell_1)
  have c: "''c'' \<in> set (headers d)"
    by (simp add: h)
  have "\<exists>r \<in> set (rows d). is_number (r ''c'')"
  proof -
    have "is_number ((map (\<lambda>r. r ''c'') (rows d)) ! 1)"
      by (simp add: r)
    moreover have "length (rows d) = 3"
      using arg_cong [OF r, of length] by simp
    ultimately show ?thesis
      by (metis One_nat_def nth_map nth_mem numeral_3_eq_3 lessI less_SucI)
  qed
  with parseCSV_types [OF d c] have "types d ''c'' = Some TNumber"
    by simp
  with d c r show ?thesis
    by simp
qed

text \<open>
  Claim C9 says that the headers of every table that \<^verbatim>\<open>parseCSV\<close> produces are unique.
  The builder never removes or renames a repeated header: for the text \<^verbatim>\<open>a,a\<close> it
  produces a table whose header list is \<^verbatim>\<open>["a", "a"]\<close>.
\<close>

theorem parseCSV_headers_not_unique:
  "map_option (\<lambda>d. distinct (headers d)) (parseCSV ''a,a'') = Some False"
  by code_simp

text \<open>
  C9, amended: the headers of the table are the comma-separated fields of the first
  non-blank line, trimmed and stripped of one layer of quotes, in their order and with
  their repetitions.
\<close>

theorem parseCSV_headers:
  "parseCSV csvText = Some d \<Longrightarrow> headers d = header_fields csvText"
  by (auto simp: parseCSV_def header_fields_def Let_def split: if_splits)

theorem parseCSV_headers_witness:
  "parseCSV ''a,b'' \<noteq> None \<and> headers (the (parseCSV ''a,b'')) = [''a'', ''b'']"
proof -
  have "parseCSV ''a,b'' \<noteq> None"
    by (simp add: parseCSV_def trim_def isWhiteSpace_def)
  then obtain d where d: "parseCSV ''a,b'' = Some d"
    by blast
  have "header_fields ''a,b'' = [''a'', ''b'']"
    by code_simp
  with parseCSV_headers [OF d] d show ?thesis
    by simp
qed

section \<open>Grouping\<close>

lemma add_row_fields [simp]:
  "key (add_row e cols row g) = key g"
  "vendas (add_row e cols row g) = Suc (vendas g)"
  "faturamento (add_row e cols row g) = fadd (faturamento g) (rVal cols row)"
  by (simp_all add: add_row_def Let_def)

lemma new_cluster_fields [simp]:
  "key (new_cluster cols row) = row_key cols row"
  "vendas (new_cluster cols row) = 0"
  "faturamento (new_cluster cols row) = Fin 0"
  by (simp_all add: new_cluster_def Let_def)

lemma map_no_key:
  "k \<notin> key ` set G \<Longrightarrow> map (\<lambda>g. if key g = k then u g else g) G = G"
  by (induction G) auto

lemma group_step_old:
  "row_key cols row \<in> key ` set G \<Longrightarrow>
   group_step e cols G row = map (\<lambda>g. if key g = row_key cols row then add_row e cols row g else g) G"
  by (auto simp: group_step_def Let_def list_ex_iff image_iff)

lemma group_step_new:
  "row_key cols row \<notin> key ` set G \<Longrightarrow>
   group_step e cols G row = G @ [add_row e cols row (new_cluster cols row)]"
  by (auto simp: group_step_def Let_def list_ex_iff map_no_key image_iff)

lemma keys_group_step:
  "map key (group_step e cols G row) =
     (if row_key cols row \<in> set (map key G) then map key G else map key G @ [row_key cols row])"
proof (cases "row_key cols row \<in> key ` set G")
  case True
  then show ?thesis
    by (simp add: group_step_old comp_def cong: map_cong)
next
  case False
  then show ?thesis
    by (simp add: group_step_new)
qed

lemma group_rows_snoc:
  "group_rows e cols (rs @ [r]) = group_step e cols (group_rows e cols rs) r"
  by (simp add: group_rows_def)

lemma first_seen_snoc:
  "first_seen (xs @ [x]) = (if x \<in> set (first_seen xs) then first_seen xs else first_seen xs @ [x])"
  by (simp add: first_seen_def)

lemma first_seen_Nil [simp]: "first_seen [] = []"
  by (simp add: first_seen_def)

lemma set_first_seen [simp]: "set (first_seen xs) = set xs"
  by (induction xs rule: rev_induct) (auto simp: first_seen_snoc)

lemma distinct_first_seen [simp]: "distinct (first_seen xs)"
  by (induction xs rule: rev_induct) (auto simp: first_seen_snoc)

lemma first_seen_remdups: "first_seen xs = rev (remdups (rev xs))"
  by (induction xs rule: rev_induct) (auto simp: first_seen_snoc)

lemma keys_group_rows:
  "map key (group_rows e cols rs) = first_seen (map (row_key cols) rs)"
proof (induction rs rule: rev_induct)
  case Nil
  then show ?case by (simp add: group_rows_def)
next
  case (snoc r rs)
  then show ?case
    by (simp add: group_rows_snoc keys_group_step first_seen_snoc)
qed


lemma vendas_group_rows:
  "g \<in> set (group_rows e cols rs) \<Longrightarrow> vendas g = count_list (map (row_key cols) rs) (key g)"
proof (induction rs arbitrary: g rule: rev_induct)
  case Nil
  then show ?case by (simp add: group_rows_def)
next
  case (snoc r rs)
  let ?G = "group_rows e cols rs"
  let ?k = "row_key cols r"
  show ?case
  proof (cases "?k \<in> key ` set ?G")
    case True
    with snoc.prems obtain g0 where g0: "g0 \<in> set ?G" "g = (if key g0 = ?k then add_row e cols r g0 else g0)"
      by (auto simp: group_rows_snoc group_step_old)
    with snoc.IH [OF g0(1)] show ?thesis
      by auto
  next
    case False
    then have "?k \<notin> set (map (row_key cols) rs)"
      using keys_group_rows [of e cols rs] set_first_seen [of "map (row_key cols) rs"]
      by (metis set_map)
    then have c: "count_list (map (row_key cols) rs) ?k = 0"
      by (simp add: count_list_0_iff)
    from False snoc.prems have "g \<in> set ?G \<or> g = add_row e cols r (new_cluster cols r)"
      by (auto simp: group_rows_snoc group_step_new)
    then show ?thesis
    proof
      assume g: "g \<in> set ?G"
      with False have "key g \<noteq> ?k"
        by (auto simp: image_iff)
      with snoc.IH [OF g] show ?thesis
        by simp
    next
      assume "g = add_row e cols r (new_cluster cols r)"
      with c show ?thesis
        by simp
    qed
  qed
qed

text \<open>
  C8: the clusters come out sorted by descending sale count, and for every count \<open>n\<close>
  the clusters with that count come in the order in which their keys are first seen
  among the rows.
\<close>

theorem groupedPerformance_order:
  "sorted_wrt (\<lambda>a b. vendas b \<le> vendas a) (groupedPerformance e cols rs)
   \<and> (\<forall>n. map key (filter (\<lambda>g. vendas g = n) (groupedPerformance e cols rs))
          = filter (\<lambda>k. count_list (map (row_key cols) rs) k = n) (first_seen (map (row_key cols) rs)))"
proof (intro conjI allI)
  have "sorted (map (\<lambda>g. - int (vendas g)) (groupedPerformance e cols rs))"
    by (simp add: groupedPerformance_def)
  then show "sorted_wrt (\<lambda>a b. vendas b \<le> vendas a) (groupedPerformance e cols rs)"
    by (simp add: sorted_wrt_map)
next
  fix n
  let ?G = "group_rows e cols rs"
  have "filter (\<lambda>g. vendas g = n) (groupedPerformance e cols rs)
          = filter (\<lambda>g. - int (vendas g) = - int n) (sort_key (\<lambda>g. - int (vendas g)) ?G)"
    by (simp add: groupedPerformance_def)
  also have "\<dots> = filter (\<lambda>g. - int (vendas g) = - int n) ?G"
    by (rule sort_key_stable)
  also have "\<dots> = filter (\<lambda>g. count_list (map (row_key cols) rs) (key g) = n) ?G"
    by (rule filter_cong) (simp_all add: vendas_group_rows)
  finally have "map key (filter (\<lambda>g. vendas g = n) (groupedPerformance e cols rs))
          = filter (\<lambda>k. count_list (map (row_key cols) rs) k = n) (map key ?G)"
    by (simp add: filter_map comp_def)
  then show "map key (filter (\<lambda>g. vendas g = n) (groupedPerformance e cols rs))
          = filter (\<lambda>k. count_list (map (row_key cols) rs) k = n) (first_seen (map (row_key cols) rs))"
    by (simp add: keys_group_rows)
qed













section \<open>Evaluation of the views on sample tables\<close>

lemma filteredRows_no_restriction:
  "filteredRows e d cols no_restriction = rowsWithIndex (rows d)"
  by (simp add: filteredRows_def no_restriction_def date_pass_def matchesFilters_def matchesSearch_def)
lemma cell_A: "cleanAndParse ''A'' = Str ''A''" by (simp add: cell_eval)
lemma cell_B: "cleanAndParse ''B'' = Str ''B''" by (simp add: cell_eval)
lemma cell_date_0101: "cleanAndParse ''01/01/2024'' = Str ''01/01/2024''" by (simp add: cell_eval)
lemma table_headers:
  "nonblank_lines csvText = h # dl \<Longrightarrow>
   headers (table_of csvText) = map (\<lambda>h. strip_quotes (trim h)) (split_char CHR '','' h)"
  by (simp add: table_of_def parseCSV_Some)

lemma table_rows:
  "nonblank_lines csvText = h # dl \<Longrightarrow>
   rows (table_of csvText) =
     map (\<lambda>line. make_row (headers (table_of csvText)) (map trim (split_fields line))) dl"
  by (simp add: table_of_def parseCSV_Some)

lemmas col_eval = resolve_columns_def findHeader_def toLowerCase_def lower_char_def


lemmas rVal_eval = rVal_def col_or_empty_def Number_or_0_def Number_of_def

lemma lines_scenario:
  "nonblank_lines csv_scenario =
     [''id,data,utm_source,utm_campaign,produto,valor'',
      ''1,01/01/2024,fb_ads,Promo|v2,A,\"R$ 100,00\"'',
      ''2,02/01/2024,google,Promo|v2,B,\"R$ 50,00\"'']"
  by (simp add: csv_scenario_def nonblank_lines_def str_eval)

lemma headers_scenario:
  "headers (table_of csv_scenario) =
     [''id'', ''data'', ''utm_source'', ''utm_campaign'', ''produto'', ''valor'']"
  by (simp add: table_headers [OF lines_scenario] str_eval)

lemma cols_scenario:
  "columns_of csv_scenario =
     \<lparr>colData = Some ''data'', colProduto = Some ''produto'', colFaturamento = Some ''valor'',
      colSource = Some ''utm_source'', colCampaign = Some ''utm_campaign'', colContent = None\<rparr>"
  by (simp add: columns_of_def headers_scenario col_eval startsWith_def)

lemma fields_scenario_1:
  "split_fields ''1,01/01/2024,fb_ads,Promo|v2,A,\"R$ 100,00\"'' =
     [''1'', ''01/01/2024'', ''fb_ads'', ''Promo|v2'', ''A'', ''\"R$ 100,00\"'']"
  by simp

lemma fields_scenario_2:
  "split_fields ''2,02/01/2024,google,Promo|v2,B,\"R$ 50,00\"'' =
     [''2'', ''02/01/2024'', ''google'', ''Promo|v2'', ''B'', ''\"R$ 50,00\"'']"
  by simp

lemma cell_2: "cleanAndParse ''2'' = Num (Fin 2)"
  by (simp add: cell_eval round_double_numeral)

lemma cell_date_0201: "cleanAndParse ''02/01/2024'' = Str ''02/01/2024''"
  by (simp add: cell_eval)

lemma cell_fb_ads: "cleanAndParse ''fb_ads'' = Str ''fb_ads''"
  by (simp add: cell_eval)

lemma cell_google: "cleanAndParse ''google'' = Str ''google''"
  by (simp add: cell_eval)

lemma cell_promo: "cleanAndParse ''Promo|v2'' = Str ''Promo|v2''"
  by (simp add: cell_eval)

lemma cell_100: "cleanAndParse ''\"R$ 100,00\"'' = Num (Fin 100)"
  by (simp add: cell_eval round_double_numeral)

lemma cell_50: "cleanAndParse ''\"R$ 50,00\"'' = Num (Fin 50)"
  by (simp add: cell_eval round_double_numeral)

lemma rows_scenario:
  "filtered_of e csv_scenario no_restriction =
     [[''id'' \<mapsto> Num (Fin 1), ''data'' \<mapsto> Str ''01/01/2024'', ''utm_source'' \<mapsto> Str ''fb_ads'',
       ''utm_campaign'' \<mapsto> Str ''Promo|v2'', ''produto'' \<mapsto> Str ''A'',
       ''valor'' \<mapsto> Num (Fin 100), ''_id'' \<mapsto> Num (Fin 0)],
      [''id'' \<mapsto> Num (Fin 2), ''data'' \<mapsto> Str ''02/01/2024'', ''utm_source'' \<mapsto> Str ''google'',
       ''utm_campaign'' \<mapsto> Str ''Promo|v2'', ''produto'' \<mapsto> Str ''B'',
       ''valor'' \<mapsto> Num (Fin 50), ''_id'' \<mapsto> Num (Fin 1)]]"
  by (simp add: filtered_of_def filteredRows_no_restriction table_rows [OF lines_scenario]
      headers_scenario rowsWithIndex_def make_row_def fields_scenario_1 fields_scenario_2
      cell_1 cell_2 cell_date_0101 cell_date_0201 cell_fb_ads cell_google cell_promo cell_A cell_B
      cell_100 cell_50 upt_rec str_eval
      del: split_fields.simps)

lemma round_double_0_06:
  "round_double (3 / 50) = Fin (1080863910568919 / 18014398509481984)"
  using round_double_near [of "-57" "3/50" 8646911284551352] by simp

lemma round_double_150_tax:
  "round_double (81064793292668925 / 9007199254740992) = Fin 9"
  using round_double_near [of "-49" "81064793292668925 / 9007199254740992" 5066549580791808] by simp




















section \<open>Cluster totals and the rollup\<close>




section \<open>The end-to-end scenario\<close>

lemma summary_scenario:
  "map (\<lambda>g. (key g, source g, campanha g, vendas g, faturamento g))
     (clusters_of e csv_scenario no_restriction)
   = [(''facebook|Promo'', ''facebook'', ''Promo'', 1, Fin 100),
      (''google|Promo'', ''google'', ''Promo'', 1, Fin 50)]"
proof -
  define r1 :: DataRow where "r1 = [''id'' \<mapsto> Num (Fin 1), ''data'' \<mapsto> Str ''01/01/2024'', ''utm_source'' \<mapsto> Str ''fb_ads'',
       ''utm_campaign'' \<mapsto> Str ''Promo|v2'', ''produto'' \<mapsto> Str ''A'',
       ''valor'' \<mapsto> Num (Fin 100), ''_id'' \<mapsto> Num (Fin 0)]"
  define r2 :: DataRow where "r2 = [''id'' \<mapsto> Num (Fin 2), ''data'' \<mapsto> Str ''02/01/2024'', ''utm_source'' \<mapsto> Str ''google'',
       ''utm_campaign'' \<mapsto> Str ''Promo|v2'', ''produto'' \<mapsto> Str ''B'',
       ''valor'' \<mapsto> Num (Fin 50), ''_id'' \<mapsto> Num (Fin 1)]"
  define cols where "cols = columns_of csv_scenario"
  have fr: "filtered_of e csv_scenario no_restriction = [r1, r2]"
    by (simp only: rows_scenario r1_def r2_def)
  have s: "cleanUTMSource ''fb_ads'' = ''facebook''" "cleanUTMSource ''google'' = ''google''"
    by (simp_all add: cleanUTMSource_def toLowerCase_def lower_char_def startsWith_def)
  have c: "cleanUTMCampaign ''Promo|v2'' = ''Promo''"
    by (simp add: cleanUTMCampaign_def str_eval)
  have k: "row_key cols r1 = ''facebook|Promo''" "row_key cols r2 = ''google|Promo''"
    by (simp_all add: cols_def cols_scenario r1_def r2_def row_key_def col_or_empty_def String_or_def
        truthy_def String_of_def s c)
  have sc: "source (new_cluster cols r1) = ''facebook''" "source (new_cluster cols r2) = ''google''"
      "campanha (new_cluster cols r1) = ''Promo''" "campanha (new_cluster cols r2) = ''Promo''"
    by (simp_all add: cols_def cols_scenario r1_def r2_def new_cluster_def Let_def col_or_empty_def
        String_or_def truthy_def String_of_def s c)
  have v: "rVal cols r1 = Fin 100" "rVal cols r2 = Fin 50"
    by (simp_all add: cols_def cols_scenario r1_def r2_def rVal_eval)
  have a: "source (add_row e cols r g) = source g" "campanha (add_row e cols r g) = campanha g" for r g
    by (simp_all add: add_row_def Let_def)
  have G: "groupedPerformance e cols [r1, r2] =
      [add_row e cols r1 (new_cluster cols r1), add_row e cols r2 (new_cluster cols r2)]"
    by (simp add: groupedPerformance_def group_rows_def group_step_def k)
  show ?thesis
    by (simp add: clusters_of_def fr cols_def [symmetric] G a sc k v round_double_numeral)
qed

lemma revenue_scenario:
  "revenue_sum (columns_of csv_scenario) (filtered_of e csv_scenario no_restriction) = Fin 150"
  by (simp add: revenue_sum_def rows_scenario cols_scenario rVal_eval round_double_numeral)

lemma stats_scenario:
  "stats_of e csv_scenario no_restriction (Fin 0)
     = \<lparr>fat = Fin 150, gas = Fin 0, imp = Fin 9, luc = Fin 141, roas = Fin 0\<rparr>"
  by (simp add: stats_of_def stats_def Let_def revenue_scenario round_double_0_06
      round_double_150_tax fsub_def fgt_def round_double_numeral)

text \<open>
  C6: the two sales of the scenario, read from a CSV text whose columns resolve to the
  date, source, campaign, product and value columns. The sources clean to facebook and
  google and the campaign to Promo; there are two clusters, with different keys and one
  sale each; the rollup revenue is 150 and, with an investment of 0, the tax is 9, the
  profit 141 and the ROAS 0.
\<close>

theorem scenario:
  "cleanUTMSource ''fb_ads'' = ''facebook'' \<and> cleanUTMSource ''google'' = ''google''
   \<and> cleanUTMCampaign ''Promo|v2'' = ''Promo''
   \<and> map (\<lambda>g. (source g, campanha g, vendas g)) (clusters_of e csv_scenario no_restriction)
       = [(''facebook'', ''Promo'', 1), (''google'', ''Promo'', 1)]
   \<and> map key (clusters_of e csv_scenario no_restriction) = [''facebook|Promo'', ''google|Promo'']
   \<and> fat (stats_of e csv_scenario no_restriction (Fin 0)) = Fin 150
   \<and> imp (stats_of e csv_scenario no_restriction (Fin 0)) = Fin 9
   \<and> luc (stats_of e csv_scenario no_restriction (Fin 0)) = Fin 141
   \<and> roas (stats_of e csv_scenario no_restriction (Fin 0)) = Fin 0"
proof -
  have s: "cleanUTMSource ''fb_ads'' = ''facebook''" "cleanUTMSource ''google'' = ''google''"
    by (simp_all add: cleanUTMSource_def toLowerCase_def lower_char_def startsWith_def)
  have c: "cleanUTMCampaign ''Promo|v2'' = ''Promo''"
    by (simp add: cleanUTMCampaign_def str_eval)
  have g1: "map (\<lambda>g. (source g, campanha g, vendas g)) (clusters_of e csv_scenario no_restriction)
       = [(''facebook'', ''Promo'', 1), (''google'', ''Promo'', 1)]"
    using arg_cong [OF summary_scenario [of e], of "map (\<lambda>(k, s, c, n, f). (s, c, n))"]
    by (simp add: comp_def)
  have g2: "map key (clusters_of e csv_scenario no_restriction) = [''facebook|Promo'', ''google|Promo'']"
    using arg_cong [OF summary_scenario [of e], of "map fst"]
    by (simp add: comp_def)
  from s c g1 g2 show ?thesis
    by (simp add: stats_scenario)
qed

section \<open>Rollup and per-cluster figures\<close>

lemma lines_infinite:
  "nonblank_lines csv_infinite = [''utm_source,data,valor'', ''x,01/01/2024,Infinity'']"
  by (simp add: csv_infinite_def nonblank_lines_def str_eval)

lemma headers_infinite: "headers (table_of csv_infinite) = [''utm_source'', ''data'', ''valor'']"
  by (simp add: table_headers [OF lines_infinite] str_eval)

lemma cols_infinite:
  "columns_of csv_infinite =
     \<lparr>colData = Some ''data'', colProduto = None, colFaturamento = Some ''valor'',
      colSource = Some ''utm_source'', colCampaign = None, colContent = None\<rparr>"
  by (simp add: columns_of_def headers_infinite col_eval startsWith_def)

lemma cell_x: "cleanAndParse ''x'' = Str ''x''"
  by (simp add: cell_eval)

lemma cell_Infinity: "cleanAndParse ''Infinity'' = Num PInf"
  by (simp add: cell_eval)

lemma rows_infinite:
  "filtered_of e csv_infinite no_restriction =
     [[''utm_source'' \<mapsto> Str ''x'', ''data'' \<mapsto> Str ''01/01/2024'', ''valor'' \<mapsto> Num PInf,
       ''_id'' \<mapsto> Num (Fin 0)]]"
  by (simp add: filtered_of_def filteredRows_no_restriction table_rows [OF lines_infinite]
      headers_infinite rowsWithIndex_def make_row_def cell_x cell_date_0101 cell_Infinity
      upt_rec str_eval)

text \<open>
  Claim C3 says that no ROAS, ROI or CPA computation yields NaN or Infinity. The guards
  exclude a zero divisor only. A cell that reads \<^verbatim>\<open>Infinity\<close> parses to the Number
  Infinity (line 47 rejects NaN alone), the revenue sums are then infinite, and with an
  investment of 1 both the ROAS of the rollup and the ROI shown for the cluster are
  Infinity.
\<close>

theorem infinite_revenue_infinite_ratios:
  "roas (stats_of sample_env csv_infinite no_restriction (Fin 1)) = PInf
   \<and> map (roi_shown (\<lambda>k. Some (Fin 1))) (clusters_of sample_env csv_infinite no_restriction)
       = [Some PInf]"
proof -
  define r :: DataRow where "r = [''utm_source'' \<mapsto> Str ''x'', ''data'' \<mapsto> Str ''01/01/2024'',
      ''valor'' \<mapsto> Num PInf, ''_id'' \<mapsto> Num (Fin 0)]"
  define cols where "cols = columns_of csv_infinite"
  have fr: "filtered_of sample_env csv_infinite no_restriction = [r]"
    by (simp only: rows_infinite r_def)
  have v: "rVal cols r = PInf"
    by (simp add: cols_def cols_infinite r_def rVal_eval)
  have "roas (stats cols [r] (Fin 1)) = PInf"
    by (simp add: stats_def Let_def revenue_sum_def v fgt_def)
  then have 1: "roas (stats_of sample_env csv_infinite no_restriction (Fin 1)) = PInf"
    by (simp add: stats_of_def fr cols_def)
  have "map (roi_shown (\<lambda>k. Some (Fin 1))) (groupedPerformance sample_env cols [r]) = [Some PInf]"
    by (simp add: groupedPerformance_def group_rows_def group_step_def roi_shown_def roi_def
        investment_of_def v fgt_def)
  then have "map (roi_shown (\<lambda>k. Some (Fin 1))) (clusters_of sample_env csv_infinite no_restriction)
       = [Some PInf]"
    by (simp add: clusters_of_def fr cols_def)
  with 1 show ?thesis
    by simp
qed

text \<open>
  C3, amended: the rollup has tax = revenue * 0.06, profit = revenue - investment - tax,
  ROAS = revenue / investment when the investment is positive and 0 when it is 0; a
  cluster has CPA = investment / sale count when the count is positive and 0 otherwise,
  ROI = revenue / investment when its investment is positive, and 0, shown as pending,
  when it is 0. No division has a zero divisor: with a finite revenue and a finite
  investment none of ROAS, ROI and CPA is NaN; and they are finite when the dividend is
  below \<open>2 powi 1023\<close> in magnitude and the divisor is at least 1.
\<close>

theorem rollup_and_cluster_figures:
  "fat (stats cols rs investment) = revenue_sum cols rs
   \<and> gas (stats cols rs investment) = investment
   \<and> imp (stats cols rs investment) = fmul (fat (stats cols rs investment)) (round_double (6 / 100))
   \<and> luc (stats cols rs investment)
       = fsub (fsub (fat (stats cols rs investment)) investment) (imp (stats cols rs investment))
   \<and> (fgt investment (Fin 0) \<longrightarrow>
        roas (stats cols rs investment) = fdiv (fat (stats cols rs investment)) investment)
   \<and> (investment = Fin 0 \<longrightarrow> roas (stats cols rs investment) = Fin 0)
   \<and> (0 < vendas g \<longrightarrow> cpa gi g = fdiv (investment_of gi g) (Fin (of_nat (vendas g))))
   \<and> (vendas g = 0 \<longrightarrow> cpa gi g = Fin 0)
   \<and> (fgt (investment_of gi g) (Fin 0) \<longrightarrow>
        roi gi g = fdiv (faturamento g) (investment_of gi g))
   \<and> (investment_of gi g = Fin 0 \<longrightarrow> roi gi g = Fin 0 \<and> roi_shown gi g = None)
   \<and> (isFinite (fat (stats cols rs investment)) \<and> isFinite investment \<longrightarrow>
        \<not> isNaN (roas (stats cols rs investment)))
   \<and> (isFinite (investment_of gi g) \<longrightarrow> \<not> isNaN (cpa gi g))
   \<and> (isFinite (faturamento g) \<and> isFinite (investment_of gi g) \<longrightarrow> \<not> isNaN (roi gi g))
   \<and> (\<forall>a b. fat (stats cols rs investment) = Fin a \<and> investment = Fin b
          \<and> \<bar>a\<bar> < 2 powi 1023 \<and> 1 \<le> b \<longrightarrow> isFinite (roas (stats cols rs investment)))
   \<and> (\<forall>b. investment_of gi g = Fin b \<and> \<bar>b\<bar> < 2 powi 1023 \<longrightarrow> isFinite (cpa gi g))
   \<and> (\<forall>a b. faturamento g = Fin a \<and> investment_of gi g = Fin b
          \<and> \<bar>a\<bar> < 2 powi 1023 \<and> 1 \<le> b \<longrightarrow> isFinite (roi gi g))"
proof -
  have 1: "isFinite x \<Longrightarrow> isFinite y \<Longrightarrow> \<not> isNaN (if fgt y (Fin 0) then fdiv x y else Fin 0)" for x y
    by (cases x; cases y) (simp_all add: fgt_def)
  have 2: "isFinite y \<Longrightarrow> 0 < n \<Longrightarrow> \<not> isNaN (fdiv y (Fin (of_nat n)))" for y and n :: nat
    by (cases y) simp_all
  have 3: "\<bar>a\<bar> < 2 powi 1023 \<Longrightarrow> 1 \<le> b \<Longrightarrow>
      isFinite (if fgt (Fin b) (Fin 0) then fdiv (Fin a) (Fin b) else Fin 0)" for a b
    using fdiv_finite [of a b] by (simp del: fdiv.simps)
  have 4: "\<bar>b\<bar> < 2 powi 1023 \<Longrightarrow>
      isFinite (if 0 < n then fdiv (Fin b) (Fin (of_nat n)) else Fin 0)" for b and n :: nat
    using fdiv_finite [of b "of_nat n"] by (cases n) (simp_all del: fdiv.simps)
  have basic: "fat (stats cols rs investment) = revenue_sum cols rs"
    "gas (stats cols rs investment) = investment"
    "imp (stats cols rs investment) = fmul (revenue_sum cols rs) (round_double (6 / 100))"
    "luc (stats cols rs investment)
       = fsub (fsub (revenue_sum cols rs) investment) (fmul (revenue_sum cols rs) (round_double (6 / 100)))"
    "roas (stats cols rs investment)
       = (if fgt investment (Fin 0) then fdiv (revenue_sum cols rs) investment else Fin 0)"
    by (simp_all add: stats_def Let_def)
  show ?thesis
    unfolding basic cpa_def roi_def roi_shown_def
    using 1 [of "revenue_sum cols rs" investment] 1 [of "faturamento g" "investment_of gi g"]
      2 [of "investment_of gi g" "vendas g"] 3 4 [of _ "vendas g"]
    by (auto simp: fgt_def simp del: fdiv.simps)
qed

theorem rollup_and_cluster_figures_witness:
  "fgt (Fin 50) (Fin 0)
   \<and> isFinite (fat (stats_of sample_env csv_scenario no_restriction (Fin 50)))
   \<and> fat (stats_of sample_env csv_scenario no_restriction (Fin 50)) = Fin 150
   \<and> \<bar>150 :: rat\<bar> < 2 powi 1023 \<and> (1 :: rat) \<le> 50
   \<and> roas (stats_of sample_env csv_scenario no_restriction (Fin 50)) = Fin 3
   \<and> isFinite (roas (stats_of sample_env csv_scenario no_restriction (Fin 50)))
   \<and> roas (stats_of sample_env csv_scenario no_restriction (Fin 0)) = Fin 0
   \<and> 0 < vendas (hd (clusters_of sample_env csv_scenario no_restriction))
   \<and> fgt (investment_of [''facebook|Promo'' \<mapsto> Fin 50] (hd (clusters_of sample_env csv_scenario no_restriction))) (Fin 0)
   \<and> cpa [''facebook|Promo'' \<mapsto> Fin 50] (hd (clusters_of sample_env csv_scenario no_restriction)) = Fin 50
   \<and> roi [''facebook|Promo'' \<mapsto> Fin 50] (hd (clusters_of sample_env csv_scenario no_restriction)) = Fin 2
   \<and> vendas (new_cluster (columns_of csv_scenario) Map.empty) = 0
   \<and> investment_of Map.empty (new_cluster (columns_of csv_scenario) Map.empty) = Fin 0
   \<and> cpa Map.empty (new_cluster (columns_of csv_scenario) Map.empty) = Fin 0
   \<and> roi_shown Map.empty (new_cluster (columns_of csv_scenario) Map.empty) = None"
proof -
  let ?cols = "columns_of csv_scenario"
  let ?rs = "filtered_of sample_env csv_scenario no_restriction"
  let ?g = "hd (clusters_of sample_env csv_scenario no_restriction)"
  let ?gi = "[''facebook|Promo'' \<mapsto> Fin 50] :: string \<rightharpoonup> number"
  let ?empty = "new_cluster ?cols Map.empty"
  obtain g g' where gs: "clusters_of sample_env csv_scenario no_restriction = [g, g']"
    using summary_scenario [of sample_env] by (auto simp: map_eq_Cons_conv)
  with summary_scenario [of sample_env]
  have g: "key ?g = ''facebook|Promo''" "vendas ?g = 1" "faturamento ?g = Fin 100"
    by simp_all
  have i: "investment_of ?gi ?g = Fin 50"
    by (simp add: investment_of_def g)
  have f: "fat (stats ?cols ?rs x) = Fin 150" for x
    by (simp add: stats_def Let_def revenue_scenario)
  note A = rollup_and_cluster_figures [of ?cols ?rs "Fin 50" ?g ?gi]
  note B = rollup_and_cluster_figures [of ?cols ?rs "Fin 0" ?empty Map.empty]
  have p: "fgt (Fin 50) (Fin 0)"
    by (simp add: fgt_def)
  have i0: "investment_of Map.empty ?empty = Fin 0" "vendas ?empty = 0"
    by (simp_all add: investment_of_def)
  have rd: "round_double (50 / 1) = Fin 50" "round_double (150 / 50) = Fin 3" "round_double (100 / 50) = Fin 2"
    by (simp_all add: round_double_numeral)
  from A p g i f have "roas (stats ?cols ?rs (Fin 50)) = Fin 3" "cpa ?gi ?g = Fin 50" "roi ?gi ?g = Fin 2"
    by (simp_all add: round_double_numeral)
  moreover from B i0 have "roas (stats ?cols ?rs (Fin 0)) = Fin 0" "cpa Map.empty ?empty = Fin 0"
      "roi_shown Map.empty ?empty = None"
    by simp_all
  ultimately show ?thesis
    using p g i i0 f by (simp add: stats_of_def)
qed

section \<open>The date restriction\<close>

lemma findHeader_not_empty:
  "findHeader hs keys hint = Some h \<Longrightarrow> [] \<notin> set keys \<Longrightarrow> h \<noteq> []"
proof -
  assume f: "findHeader hs keys hint = Some h" and k: "[] \<notin> set keys"
  show "h \<noteq> []"
  proof
    assume h: "h = []"
    show False
    proof (cases "hint \<noteq> None \<and> the hint < length hs \<and> hs ! the hint \<noteq> []")
      case True
      with f h show False
        by (simp add: findHeader_def)
    next
      case False
      with f h have "list_ex (\<lambda>k. toLowerCase [] = toLowerCase k
            \<or> str_includes (toLowerCase []) (toLowerCase k)) keys"
        by (auto simp: findHeader_def find_Some_iff)
      then obtain k' where "k' \<in> set keys" "toLowerCase k' = []"
        by (auto simp: list_ex_iff toLowerCase_def)
      with k show False
        by (auto simp: toLowerCase_def)
    qed
  qed
qed

lemma colData_not_empty: "colData (resolve_columns hs) = Some cd \<Longrightarrow> cd \<noteq> []"
  by (rule findHeader_not_empty [of hs "[''data venda'', ''data'']" "Some 1"])
    (simp_all add: resolve_columns_def)

lemma date_lt_Invalid [simp]: "date_lt x Invalid = False"
  by (cases x) simp_all

lemma null_date_excluded:
  assumes "colData cols = Some cd" "cd \<noteq> []" "datePreset q \<noteq> All"
    and "parseBrazilianDate e (row cd) = None"
  shows "\<not> date_pass e cols q row"
  using assms by (simp add: date_pass_def)

lemma lines_bad_date: "nonblank_lines csv_bad_date = [''id,data'', ''1,a/b/c'']"
  by (simp add: csv_bad_date_def nonblank_lines_def str_eval)

lemma headers_bad_date: "headers (table_of csv_bad_date) = [''id'', ''data'']"
  by (simp add: table_headers [OF lines_bad_date] str_eval)

lemma cell_abc_date: "cleanAndParse ''a/b/c'' = Str ''a/b/c''"
  by (simp add: cell_eval)

lemma rows_bad_date:
  "rowsWithIndex (rows (table_of csv_bad_date)) =
     [[''id'' \<mapsto> Num (Fin 1), ''data'' \<mapsto> Str ''a/b/c'', ''_id'' \<mapsto> Num (Fin 0)]]"
  by (simp add: table_rows [OF lines_bad_date] headers_bad_date rowsWithIndex_def make_row_def
      cell_1 cell_abc_date upt_rec str_eval)

lemma cols_bad_date: "colData (columns_of csv_bad_date) = Some ''data''"
  by (simp add: columns_of_def headers_bad_date col_eval)

lemma parse_abc: "parseBrazilianDate e (Some (Str ''a/b/c'')) = Some Invalid"
  by (simp add: parseBrazilianDate_def Let_def str_eval num_eval fsub_def)

text \<open>
  Claim C4 on its failing input: a date cell \<^verbatim>\<open>a/b/c\<close> splits into three parts, so that
  \<^verbatim>\<open>parseBrazilianDate\<close> returns the date object built from three NaN fields, an invalid
  date, and not \<^verbatim>\<open>null\<close>. The test \<^verbatim>\<open>!rowDate\<close> of line 308 does not hold for it, and every
  comparison with it is false: the row is kept under the 7, 15 and 30 day presets and
  under a custom range. Only the preset for today drops it.
\<close>

theorem unparseable_date_kept:
  "parseBrazilianDate e (Some (Str ''a/b/c'')) = Some Invalid
   \<and> map (\<lambda>row. row ''data'') (filtered_of e csv_bad_date (preset_only Days7 [] []))
       = [Some (Str ''a/b/c'')]
   \<and> map (\<lambda>row. row ''data'') (filtered_of e csv_bad_date (preset_only Days15 [] []))
       = [Some (Str ''a/b/c'')]
   \<and> map (\<lambda>row. row ''data'') (filtered_of e csv_bad_date (preset_only Days30 [] []))
       = [Some (Str ''a/b/c'')]
   \<and> map (\<lambda>row. row ''data'')
         (filtered_of e csv_bad_date (preset_only Custom ''2024-01-01'' ''2024-01-31''))
       = [Some (Str ''a/b/c'')]
   \<and> filtered_of e csv_bad_date (preset_only Today [] []) = []"
  by (simp add: filtered_of_def filteredRows_def rows_bad_date cols_bad_date date_pass_def
      preset_only_def parse_abc matchesFilters_def matchesSearch_def date_gt_def Date_now_def)

text \<open>
  C10: with a date column identified, the custom preset and an empty start or end date,
  the filter keeps exactly the rows whose date cell does not parse to \<^verbatim>\<open>null\<close> and that
  pass the categorical filters and the search: no bound on the date is applied, and the
  rows with a \<^verbatim>\<open>null\<close> date are excluded.
\<close>

theorem custom_without_bounds:
  assumes "colData (resolve_columns (headers d)) = Some cd"
    and "datePreset q = Custom"
    and "customStartDate q = [] \<or> customEndDate q = []"
  shows "filteredRows e d (resolve_columns (headers d)) q =
     filter (\<lambda>row. parseBrazilianDate e (row cd) \<noteq> None
                   \<and> matchesFilters (resolve_columns (headers d)) q row
                   \<and> matchesSearch (headers d) q row)
       (rowsWithIndex (rows d))"
proof -
  have "date_pass e (resolve_columns (headers d)) q row = (parseBrazilianDate e (row cd) \<noteq> None)" for row
    using assms colData_not_empty [OF assms(1)]
    by (auto simp: date_pass_def split: option.splits)
  then show ?thesis
    by (simp add: filteredRows_def)
qed

lemma lines_dates: "nonblank_lines csv_dates = [''id,data'', ''1,01/01/2024'', ''2,x'']"
  by (simp add: csv_dates_def nonblank_lines_def str_eval)

lemma headers_dates: "headers (table_of csv_dates) = [''id'', ''data'']"
  by (simp add: table_headers [OF lines_dates] str_eval)

lemma rows_dates:
  "rowsWithIndex (rows (table_of csv_dates)) =
     [[''id'' \<mapsto> Num (Fin 1), ''data'' \<mapsto> Str ''01/01/2024'', ''_id'' \<mapsto> Num (Fin 0)],
      [''id'' \<mapsto> Num (Fin 2), ''data'' \<mapsto> Str ''x'', ''_id'' \<mapsto> Num (Fin 1)]]"
  by (simp add: table_rows [OF lines_dates] headers_dates rowsWithIndex_def make_row_def
      cell_1 cell_2 cell_x cell_date_0101 upt_rec str_eval)

lemma colData_dates: "colData (resolve_columns (headers (table_of csv_dates))) = Some ''data''"
  by (simp add: headers_dates col_eval)

lemma parse_0101: "parseBrazilianDate e (Some (Str ''01/01/2024'')) \<noteq> None"
  by (simp add: parseBrazilianDate_def Let_def)

lemma parse_x: "parseBrazilianDate sample_env (Some (Str ''x'')) = None"
  by (simp add: parseBrazilianDate_def Let_def Date_of_string_def sample_env_def)

theorem custom_without_bounds_witness:
  "colData (resolve_columns (headers (table_of csv_dates))) = Some ''data''
   \<and> datePreset (preset_only Custom [] ''2024-01-31'') = Custom
   \<and> (customStartDate (preset_only Custom [] ''2024-01-31'') = []
        \<or> customEndDate (preset_only Custom [] ''2024-01-31'') = [])
   \<and> map (\<lambda>row. row ''data'')
         (filteredRows sample_env (table_of csv_dates) (resolve_columns (headers (table_of csv_dates)))
            (preset_only Custom [] ''2024-01-31''))
       = [Some (Str ''01/01/2024'')]"
proof -
  let ?q = "preset_only Custom [] ''2024-01-31''"
  have q: "datePreset ?q = Custom" "customStartDate ?q = [] \<or> customEndDate ?q = []"
    by (simp_all add: preset_only_def)
  have m: "matchesFilters cols ?q row" "matchesSearch hs ?q row" for cols hs row
    by (simp_all add: matchesFilters_def matchesSearch_def preset_only_def)
  from custom_without_bounds [OF colData_dates q, of sample_env]
  have "map (\<lambda>row. row ''data'')
         (filteredRows sample_env (table_of csv_dates) (resolve_columns (headers (table_of csv_dates))) ?q)
       = [Some (Str ''01/01/2024'')]"
    by (simp add: rows_dates m parse_0101 parse_x)
  with colData_dates q show ?thesis
    by blast
qed

end
